theory Spec2Isabelle
  imports Main
begin

section \<open>Python values and dataframes\<close>

text \<open>
  The cells of a pandas dataframe hold dynamically typed Python objects. The code under
  study inspects a cell in three ways only: it renders it with \<open>str()\<close>
  (\<open>DataFrame.astype(str)\<close>), it asks whether it is missing (\<open>notna()\<close>), and it
  takes the length of a string (\<open>.str.len()\<close>). \<open>PyObj r\<close> stands for any other
  object (a list, a dict, a float), carried by its \<open>str()\<close> rendering \<open>r\<close>.
\<close>

datatype pyval = PyNone | PyNaN | PyInt int | PyStr string | PyObj string

datatype error =
    UserWarning string
  | ValueError string
  | KeyError string
  | IndexError
  | AttributeError
  | ProgrammingError
  | OperationalError
  | NameError string
  | ParserError string
  | QuotaHalt
  | PandasError

text \<open>Python's \<open>str()\<close> of an integer: decimal digits, with a minus sign.\<close>

definition digit_char :: "nat \<Rightarrow> char" where
  "digit_char d = ''0123456789'' ! d"

function str_nat :: "nat \<Rightarrow> string" where
  "str_nat n = (if n < 10 then [digit_char n] else str_nat (n div 10) @ [digit_char (n mod 10)])"
  by pat_completeness auto
termination
  by (relation "measure (\<lambda>n. n)") auto

declare str_nat.simps [simp del]

definition str_int :: "int \<Rightarrow> string" where
  "str_int i = (if i < 0 then CHR ''-'' # str_nat (nat (- i)) else str_nat (nat i))"

fun py_str :: "pyval \<Rightarrow> string" where
  "py_str PyNone = ''None''"
| "py_str PyNaN = ''nan''"
| "py_str (PyInt i) = str_int i"
| "py_str (PyStr s) = s"
| "py_str (PyObj r) = r"

text \<open>\<open>notna()\<close>: \<open>None\<close> and \<open>NaN\<close> are the missing values.\<close>

fun notna :: "pyval \<Rightarrow> bool" where
  "notna PyNone = False"
| "notna PyNaN = False"
| "notna _ = True"

text \<open>
  A dataframe: the column labels and the rows, each row holding one cell per column, in
  the order of the labels. The same shape carries the frame through its conversions
  (\<open>pyval\<close> cells, then \<open>str\<close> cells, then \<open>str\<close> or \<open>None\<close>).
\<close>

record 'a frame =
  columns :: "string list"
  rows :: "'a list list"

type_synonym dataframe = "pyval frame"

definition empty_df :: "'a frame \<Rightarrow> bool" where
  \<comment> \<open>\<open>df.empty\<close>: no rows or no columns\<close>
  "empty_df df = (rows df = [] \<or> columns df = [])"

definition astype_str :: "dataframe \<Rightarrow> string frame" where
  "astype_str df = \<lparr>columns = columns df, rows = map (map py_str) (rows df)\<rparr>"

text \<open>
  \<open>convert.nan_to_none\<close> is not among the sources. It replaces the nan-like cells of a
  frame by \<open>None\<close>; which renderings count as nan-like is the parameter \<open>nl\<close>.
\<close>

definition nan_to_none_cell :: "(string \<Rightarrow> bool) \<Rightarrow> string \<Rightarrow> string option" where
  "nan_to_none_cell nl s = (if nl s then None else Some s)"

definition nan_to_none :: "(string \<Rightarrow> bool) \<Rightarrow> string frame \<Rightarrow> string option frame" where
  "nan_to_none nl df = \<lparr>columns = columns df, rows = map (map (nan_to_none_cell nl)) (rows df)\<rparr>"

text \<open>
  \<open>df[labels]\<close>: the columns with the given labels, in the order of \<open>labels\<close>; a label
  the frame does not have raises \<open>KeyError\<close>; a label the frame has twice selects both
  columns.
\<close>

definition select_row :: "string list \<Rightarrow> string list \<Rightarrow> 'a list \<Rightarrow> 'a list" where
  "select_row labels names row =
     concat (map (\<lambda>c. map snd (filter (\<lambda>kv. fst kv = c) (zip names row))) labels)"

definition getitem_cols :: "'a frame \<Rightarrow> string list \<Rightarrow> error + 'a frame" where
  "getitem_cols df labels =
     (case filter (\<lambda>c. c \<notin> set (columns df)) labels of
        c # _ \<Rightarrow> Inl (KeyError c)
      | [] \<Rightarrow> Inr \<lparr>columns = select_row labels (columns df) (columns df),
                   rows = map (select_row labels (columns df)) (rows df)\<rparr>)"

section \<open>Storage: \<open>Database\<close>\<close>

text \<open>
  A stored row is a list of SQL values, each a text or \<open>NULL\<close> (\<open>None\<close>).
  \<open>tables\<close> is \<open>self.tables\<close>, the registry \<open>{table: [columns]}\<close> that \<open>get_tables\<close>
  reads from the tables' own descriptions. The \<open>.sql\<close> schema is not among the sources:
  \<open>pkey\<close> gives, for each table, the column its \<open>PRIMARY KEY\<close> is declared on
  (\<open>None\<close> for a table without one), and \<open>contents\<close> the rows of each table, in
  insertion order.
\<close>

type_synonym sqlrow = "string option list"

record database =
  tables :: "string \<rightharpoonup> string list"
  pkey :: "string \<rightharpoonup> string"
  contents :: "string \<Rightarrow> sqlrow list"

text \<open>The value of a row's primary key; \<open>None\<close> when it is \<open>NULL\<close> or the table has no key.\<close>

definition key_of :: "string list \<Rightarrow> string option \<Rightarrow> sqlrow \<Rightarrow> string option" where
  "key_of cols pk r =
     (case pk of
        None \<Rightarrow> None
      | Some c \<Rightarrow> (case map_of (zip cols r) c of None \<Rightarrow> None | Some v \<Rightarrow> v))"

text \<open>
  \<open>INSERT OR REPLACE\<close> of one row: the rows whose primary key equals the new row's are
  deleted, then the new row is added. A \<open>NULL\<close> key equals no key.
\<close>

definition insert_or_replace :: "(sqlrow \<Rightarrow> string option) \<Rightarrow> sqlrow \<Rightarrow> sqlrow list \<Rightarrow> sqlrow list" where
  "insert_or_replace kf r tbl =
     (case kf r of
        None \<Rightarrow> tbl @ [r]
      | Some k \<Rightarrow> filter (\<lambda>x. kf x \<noteq> Some k) tbl @ [r])"

text \<open>
  \<open>executemany\<close> with \<open>n\<close> placeholders: the records are executed in order; a record
  that does not supply \<open>n\<close> values raises \<open>ProgrammingError\<close>.
\<close>

fun executemany :: "nat \<Rightarrow> (sqlrow \<Rightarrow> string option) \<Rightarrow> sqlrow list \<Rightarrow> sqlrow list \<Rightarrow> error + sqlrow list" where
  "executemany n kf [] tbl = Inr tbl"
| "executemany n kf (r # rs) tbl =
     (if length r \<noteq> n then Inl ProgrammingError
      else executemany n kf rs (insert_or_replace kf r tbl))"

text \<open>
  \<open>Database.insert(df, table)\<close>. An exception leaves the database as it was: the
  records of a frame all have the same number of values, so \<open>executemany\<close> can only
  fail on the first one.
\<close>

definition db_insert :: "(string \<Rightarrow> bool) \<Rightarrow> dataframe \<Rightarrow> string \<Rightarrow> database \<Rightarrow> error + database" where
  "db_insert nl df table db =
     (let df1 = astype_str df;
          df2 = nan_to_none nl df1 in
      case tables db table of
        None \<Rightarrow> Inl (KeyError table)
      | Some cols \<Rightarrow>
          (case getitem_cols df2 cols of
             Inl e \<Rightarrow> Inl e
           | Inr sel \<Rightarrow>
               (let records = rows sel;
                    n_columns = length cols in
                case executemany n_columns (key_of cols (pkey db table)) records (contents db table) of
                  Inl e \<Rightarrow> Inl e
                | Inr tbl \<Rightarrow> Inr (db\<lparr>contents := (contents db)(table := tbl)\<rparr>))))"


section \<open>Vertical text: \<open>corpus/vertical.py\<close>\<close>

subsection \<open>Formatting tagged sentences\<close>

text \<open>
  A stanza word carries its surface text, its part-of-speech tag and, when the tagger
  found one, its lemma; a sentence is its list of words, a document its list of
  sentences. A bundle (the \<open>DocBundle\<close> dataclass) holds the ids and the documents of
  a batch, side by side, and the number of tokens of the batch.
\<close>

record word =
  w_text :: string
  w_xpos :: string
  w_lemma :: "string option"

type_synonym sentence = "word list"
type_synonym document = "sentence list"

record 'd docbundle =
  b_id :: "pyval list"
  b_doc :: "'d list"
  b_token :: nat

text \<open>The tagset: for each tag a dict of attributes, of which \<open>"lpos"\<close> is the lempos suffix.\<close>

type_synonym tagset = "string \<rightharpoonup> (string \<rightharpoonup> string)"

definition TAB :: string where "TAB = [CHR 0x09]"
definition NL :: string where "NL = [CHR 0x0A]"

text \<open>The log: the warnings emitted so far, oldest first.\<close>

datatype log_entry =
    WarnLemma string string
  | WarnEmptyVert "pyval list"

text \<open>
  \<open>lemmatize_fail\<close>: one warning, with the document's id, for every word without a
  lemma. \<open>bundle.id[x]\<close> raises \<open>IndexError\<close> out of range.
\<close>

fun lemmatize_fail :: "pyval list \<Rightarrow> sentence \<Rightarrow> nat \<Rightarrow> log_entry list \<Rightarrow> error + log_entry list" where
  "lemmatize_fail ids [] x lg = Inr lg"
| "lemmatize_fail ids (w # ws) x lg =
     (if w_lemma w = None then
        (if x < length ids then lemmatize_fail ids ws x (lg @ [WarnLemma (py_str (ids ! x)) (w_text w)])
         else Inl IndexError)
      else lemmatize_fail ids ws x lg)"

text \<open>
  One vertical line. \<open>_stanza.fix_lemma\<close> is not among the sources: it is the
  parameter \<open>fl\<close>. \<open>tagset[w.xpos]["lpos"]\<close> raises \<open>KeyError\<close> for an unknown tag.
\<close>

definition make_line :: "(word \<Rightarrow> string) \<Rightarrow> tagset \<Rightarrow> word \<Rightarrow> error + string" where
  "make_line fl ts w =
     (case ts (w_xpos w) of
        None \<Rightarrow> Inl (KeyError (w_xpos w))
      | Some entry \<Rightarrow>
          (case entry ''lpos'' of
             None \<Rightarrow> Inl (KeyError ''lpos'')
           | Some lpos \<Rightarrow> Inr (w_text w @ TAB @ w_xpos w @ TAB @ fl w @ lpos @ NL)))"

fun make_lines :: "(word \<Rightarrow> string) \<Rightarrow> tagset \<Rightarrow> sentence \<Rightarrow> error + string list" where
  "make_lines fl ts [] = Inr []"
| "make_lines fl ts (w # ws) =
     (case make_line fl ts w of
        Inl e \<Rightarrow> Inl e
      | Inr l \<Rightarrow> (case make_lines fl ts ws of Inl e \<Rightarrow> Inl e | Inr ls \<Rightarrow> Inr (l # ls)))"

definition make_sentence ::
  "(word \<Rightarrow> string) \<Rightarrow> tagset \<Rightarrow> pyval list \<Rightarrow> sentence \<Rightarrow> nat \<Rightarrow> log_entry list \<Rightarrow> error + (string \<times> log_entry list)" where
  "make_sentence fl ts ids sent x lg =
     (let sentence = [''<s>'' @ NL] in
      case lemmatize_fail ids sent x lg of
        Inl e \<Rightarrow> Inl e
      | Inr lg' \<Rightarrow>
          (case make_lines fl ts sent of
             Inl e \<Rightarrow> Inl e
           | Inr lines \<Rightarrow> Inr (concat (sentence @ lines @ [''</s>'' @ NL]), lg')))"

text \<open>\<open>[make_sentence(sent, x) for sent in bundle.doc[x].sentences]\<close>, joined.\<close>

fun make_doc ::
  "(word \<Rightarrow> string) \<Rightarrow> tagset \<Rightarrow> pyval list \<Rightarrow> document \<Rightarrow> nat \<Rightarrow> log_entry list \<Rightarrow> error + (string \<times> log_entry list)" where
  "make_doc fl ts ids [] x lg = Inr ([], lg)"
| "make_doc fl ts ids (sent # sents) x lg =
     (case make_sentence fl ts ids sent x lg of
        Inl e \<Rightarrow> Inl e
      | Inr (s, lg') \<Rightarrow>
          (case make_doc fl ts ids sents x lg' of
             Inl e \<Rightarrow> Inl e
           | Inr (rest, lg'') \<Rightarrow> Inr (s @ rest, lg'')))"

text \<open>
  \<open>make_docs\<close>: \<open>for x in range(bundle.len)\<close>, the document at \<open>x\<close> is replaced by its
  vertical text. The \<open>DocBundle\<close> dataclass is not among the sources: \<open>bundle.len\<close> is
  taken to be the number of its documents. \<open>x\<close> is the index of the first document of
  the list.
\<close>

fun make_docs ::
  "(word \<Rightarrow> string) \<Rightarrow> tagset \<Rightarrow> pyval list \<Rightarrow> document list \<Rightarrow> nat \<Rightarrow> log_entry list \<Rightarrow> error + (string list \<times> log_entry list)" where
  "make_docs fl ts ids [] x lg = Inr ([], lg)"
| "make_docs fl ts ids (d # ds) x lg =
     (case make_doc fl ts ids d x lg of
        Inl e \<Rightarrow> Inl e
      | Inr (v, lg') \<Rightarrow>
          (case make_docs fl ts ids ds (Suc x) lg' of
             Inl e \<Rightarrow> Inl e
           | Inr (vs, lg'') \<Rightarrow> Inr (v # vs, lg'')))"

definition stanza_to_vert ::
  "(word \<Rightarrow> string) \<Rightarrow> document docbundle \<Rightarrow> tagset \<Rightarrow> log_entry list \<Rightarrow> error + (string docbundle \<times> log_entry list)" where
  "stanza_to_vert fl bundle ts lg =
     (case make_docs fl ts (b_id bundle) (b_doc bundle) 0 lg of
        Inl e \<Rightarrow> Inl e
      | Inr (vs, lg') \<Rightarrow> Inr (\<lparr>b_id = b_id bundle, b_doc = vs, b_token = b_token bundle\<rparr>, lg'))"

subsection \<open>Dropping empty documents\<close>

text \<open>A cell of a row, by the label of its column (the first column with that label).\<close>

definition cell :: "string list \<Rightarrow> 'a list \<Rightarrow> string \<Rightarrow> 'a option" where
  "cell names row c = map_of (zip names row) c"

text \<open>
  \<open>Series.str.len()\<close>: the length of a string; \<open>NaN\<close> (here \<open>None\<close>) for a cell that is
  not one. (It also measures lists and dicts; the cells of the \<open>vert\<close> column are the
  strings that \<open>make_docs\<close> joins.) A comparison with \<open>NaN\<close> is false.
\<close>

fun str_len :: "pyval \<Rightarrow> nat option" where
  "str_len (PyStr s) = Some (length s)"
| "str_len _ = None"

definition vert_len :: "string list \<Rightarrow> pyval list \<Rightarrow> nat option" where
  "vert_len names row = (case cell names row ''vert'' of None \<Rightarrow> None | Some v \<Rightarrow> str_len v)"

text \<open>
  \<open>drop_empty_vert(df)\<close>. \<open>df.query\<close> raises (\<open>NameError\<close>) when the frame has no
  \<open>vert\<close> column, and \<open>drops["id"]\<close> raises \<open>KeyError\<close> when it has no \<open>id\<close> column.
\<close>

definition drop_empty_vert :: "dataframe \<Rightarrow> log_entry list \<Rightarrow> error + (dataframe \<times> log_entry list)" where
  "drop_empty_vert df lg =
     (if ''vert'' \<notin> set (columns df) then Inl (NameError ''vert'')
      else
        (let drops = filter (\<lambda>row. vert_len (columns df) row = Some 0) (rows df);
             keep = filter (\<lambda>row. case vert_len (columns df) row of None \<Rightarrow> False | Some n \<Rightarrow> n > 0) (rows df) in
         if drops \<noteq> [] then
           (if ''id'' \<notin> set (columns df) then Inl (KeyError ''id'')
            else Inr (df\<lparr>rows := keep\<rparr>,
                      lg @ [WarnEmptyVert (map (\<lambda>row. case cell (columns df) row ''id'' of None \<Rightarrow> PyNaN | Some v \<Rightarrow> v) drops)]))
         else Inr (df\<lparr>rows := keep\<rparr>, lg)))"

subsection \<open>The corpus and its batches\<close>

text \<open>
  What the code uses and the sources do not hold is a parameter of the model:
  \<^item> \<open>nan_like\<close>: the renderings \<open>convert.nan_to_none\<close> replaces by \<open>None\<close>;
  \<^item> \<open>fix_lemma\<close>: \<open>_stanza.fix_lemma\<close>;
  \<^item> \<open>stanza_run\<close>: \<open>_stanza.run\<close>, the tagger, from the texts and the ids of a batch;
  \<^item> \<open>docbundle_to_df\<close>: \<open>convert.docbundle_to_df\<close>;
  \<^item> \<open>batch_window\<close>: the \<open>LIMIT\<close> offset and count that \<open>Database.fetch_batch\<close>
    computes from the run number and the batch size;
  \<^item> \<open>limit_runs\<close>: \<open>util.limit_runs\<close>;
  \<^item> \<open>json_changed\<close>: SQLite's \<open>json_extract(date, '$.changed')\<close> on a text: \<open>None\<close>
    when the text is not JSON (an \<open>OperationalError\<close>), \<open>Some None\<close> when the path is
    absent (\<open>NULL\<close>);
  \<^item> \<open>timestamp\<close>: \<open>pd.Timestamp\<close> of a text, as a number; \<open>None\<close> when the text is
    not a date (a \<open>ParserError\<close>).
\<close>

record vparams =
  nan_like :: "string \<Rightarrow> bool"
  fix_lemma :: "word \<Rightarrow> string"
  stanza_run :: "pyval list \<Rightarrow> pyval list \<Rightarrow> document docbundle"
  docbundle_to_df :: "string docbundle \<Rightarrow> dataframe"
  batch_window :: "nat \<Rightarrow> nat \<Rightarrow> nat \<times> nat"
  limit_runs :: "nat \<Rightarrow> nat \<Rightarrow> bool"
  json_changed :: "string \<Rightarrow> string option option"
  timestamp :: "string \<Rightarrow> int option"

record corpus =
  cdb :: database
  clog :: "log_entry list"
  ctagset :: tagset
  text_column :: string
  vert_size :: nat
  vert_run :: nat
  vert_runs :: nat

text \<open>A column of a frame, by its label: \<open>df[label]\<close>, with \<open>KeyError\<close>.\<close>

definition getitem_col :: "'a frame \<Rightarrow> string \<Rightarrow> error + 'a list" where
  "getitem_col df c =
     (if c \<in> set (columns df) then Inr (concat (map (\<lambda>row. case cell (columns df) row c of None \<Rightarrow> [] | Some v \<Rightarrow> [v]) (rows df)))
      else Inl (KeyError c))"

text \<open>
  \<open>batch_run(self, batch)\<close>: tag the batch, format it, drop the empty documents, insert
  the rest into \<open>_vert\<close>. It returns the number of tokens (the timer that decorates it
  adds the elapsed time, which is not modelled).
\<close>

definition batch_run :: "vparams \<Rightarrow> corpus \<Rightarrow> dataframe \<Rightarrow> error + (nat \<times> corpus)" where
  "batch_run P self batch =
     (case getitem_col batch (text_column self) of
        Inl e \<Rightarrow> Inl e
      | Inr texts \<Rightarrow>
     (case getitem_col batch ''id'' of
        Inl e \<Rightarrow> Inl e
      | Inr ids \<Rightarrow>
     (let stan = stanza_run P texts ids in
      case stanza_to_vert (fix_lemma P) stan (ctagset self) (clog self) of
        Inl e \<Rightarrow> Inl e
      | Inr (vert, lg) \<Rightarrow>
     (let df = docbundle_to_df P vert in
      case drop_empty_vert df lg of
        Inl e \<Rightarrow> Inl e
      | Inr (df', lg') \<Rightarrow>
     (case db_insert (nan_like P) df' ''_vert'' (cdb self) of
        Inl e \<Rightarrow> Inl e
      | Inr db' \<Rightarrow> Inr (b_token vert, self\<lparr>cdb := db', clog := lg'\<rparr>))))))"


subsection \<open>Outdated vertical content\<close>

text \<open>The first error of a list of results, or all the values.\<close>

fun collect :: "(error + 'a) list \<Rightarrow> error + 'a list" where
  "collect [] = Inr []"
| "collect (x # xs) =
     (case x of
        Inl e \<Rightarrow> Inl e
      | Inr v \<Rightarrow> (case collect xs of Inl e \<Rightarrow> Inl e | Inr vs \<Rightarrow> Inr (v # vs)))"

text \<open>The SQL value of a column in a stored row (\<open>NULL\<close> as \<open>None\<close>).\<close>

definition sql_cell :: "string list \<Rightarrow> sqlrow \<Rightarrow> string \<Rightarrow> string option" where
  "sql_cell cols r c = (case cell cols r c of None \<Rightarrow> None | Some v \<Rightarrow> v)"

definition sql_changed :: "vparams \<Rightarrow> string option \<Rightarrow> error + string option" where
  \<comment> \<open>\<open>json_extract(_raw.date, '$.changed')\<close>; of \<open>NULL\<close> it is \<open>NULL\<close>\<close>
  "sql_changed P d =
     (case d of
        None \<Rightarrow> Inr None
      | Some txt \<Rightarrow> (case json_changed P txt of None \<Rightarrow> Inl OperationalError | Some v \<Rightarrow> Inr v))"

text \<open>\<open>pd.Timestamp\<close> of an SQL value: \<open>NaT\<close> (here \<open>None\<close>) for \<open>NULL\<close>.\<close>

definition to_timestamp :: "vparams \<Rightarrow> string option \<Rightarrow> error + int option" where
  "to_timestamp P v =
     (case v of
        None \<Rightarrow> Inr None
      | Some txt \<Rightarrow> (case timestamp P txt of None \<Rightarrow> Inl (ParserError txt) | Some t \<Rightarrow> Inr (Some t)))"

text \<open>A comparison of two timestamps; with \<open>NaT\<close> on either side it is false.\<close>

fun ts_gt :: "int option \<Rightarrow> int option \<Rightarrow> bool" where
  "ts_gt (Some a) (Some b) = (a > b)"
| "ts_gt _ _ = False"

text \<open>
  The query of \<open>outdated_vert\<close>:
  \<^verbatim>\<open>SELECT _vert.id, json_extract(_raw.date,'$.changed'), vert_date
  FROM _vert LEFT JOIN _raw ON _vert.id = _raw.id\<close>
  Every row of \<open>_vert\<close> is paired with the rows of \<open>_raw\<close> of the same id (\<open>NULL\<close>
  equals nothing), or with \<open>NULL\<close>s when there is none. A table or a column that does
  not exist raises \<open>OperationalError\<close>.
\<close>

definition join_row ::
  "vparams \<Rightarrow> string list \<Rightarrow> string list \<Rightarrow> sqlrow list \<Rightarrow> sqlrow \<Rightarrow>
     (error + (string option \<times> string option \<times> string option)) list" where
  "join_row P vcols rcols raws v =
     (let vid = sql_cell vcols v ''id'';
          matches = filter (\<lambda>r. vid \<noteq> None \<and> sql_cell rcols r ''id'' = vid) raws in
      if matches = [] then [Inr (vid, None, sql_cell vcols v ''vert_date'')]
      else map (\<lambda>r. case sql_changed P (sql_cell rcols r ''date'') of
                      Inl e \<Rightarrow> Inl e
                    | Inr ch \<Rightarrow> Inr (vid, ch, sql_cell vcols v ''vert_date'')) matches)"

definition vert_join_raw :: "vparams \<Rightarrow> database \<Rightarrow> error + (string option \<times> string option \<times> string option) list" where
  "vert_join_raw P db =
     (case tables db ''_vert'' of
        None \<Rightarrow> Inl OperationalError
      | Some vcols \<Rightarrow>
     (case tables db ''_raw'' of
        None \<Rightarrow> Inl OperationalError
      | Some rcols \<Rightarrow>
     (if ''id'' \<notin> set vcols \<or> ''vert_date'' \<notin> set vcols \<or> ''id'' \<notin> set rcols \<or> ''date'' \<notin> set rcols
      then Inl OperationalError
      else collect (concat (map (join_row P vcols rcols (contents db ''_raw'')) (contents db ''_vert''))))))"

text \<open>
  \<open>outdated_vert(self)\<close>: the ids of the joined rows whose \<open>date_changed\<close> is greater
  than their \<open>vert_date\<close>. It reads the database and changes nothing.
\<close>

definition outdated_vert :: "vparams \<Rightarrow> database \<Rightarrow> error + string option list" where
  "outdated_vert P db =
     (case vert_join_raw P db of
        Inl e \<Rightarrow> Inl e
      | Inr df \<Rightarrow>
     (case collect (map (\<lambda>(i, ch, vd). to_timestamp P ch) df) of
        Inl e \<Rightarrow> Inl e
      | Inr date_changed \<Rightarrow>
     (case collect (map (\<lambda>(i, ch, vd). to_timestamp P vd) df) of
        Inl e \<Rightarrow> Inl e
      | Inr vert_date \<Rightarrow>
          Inr (map fst (filter (\<lambda>(i, ch, vd). ts_gt ch vd) (zip (map fst df) (zip date_changed vert_date)))))))"

text \<open>
  \<open>Database.fetch_batch\<close> is not among the sources; its query is:
  \<^verbatim>\<open>SELECT * FROM _raw WHERE body_html IS NOT null LIMIT ?,?\<close>
  with the window that \<open>batch_window\<close> gives.
\<close>

definition fetch_batch :: "vparams \<Rightarrow> database \<Rightarrow> nat \<Rightarrow> nat \<Rightarrow> error + (sqlrow list \<times> nat)" where
  "fetch_batch P db run sz =
     (case tables db ''_raw'' of
        None \<Rightarrow> Inl OperationalError
      | Some rcols \<Rightarrow>
          (if ''body_html'' \<notin> set rcols then Inl OperationalError
           else
             (let (off, cnt) = batch_window P run sz in
              Inr (take cnt (drop off (filter (\<lambda>r. sql_cell rcols r ''body_html'' \<noteq> None) (contents db ''_raw''))), off))))"

text \<open>\<open>SELECT id FROM _vert\<close>.\<close>

definition select_vert_ids :: "database \<Rightarrow> error + string option list" where
  "select_vert_ids db =
     (case tables db ''_vert'' of
        None \<Rightarrow> Inl OperationalError
      | Some vcols \<Rightarrow>
          (if ''id'' \<notin> set vcols then Inl OperationalError
           else Inr (map (\<lambda>v. sql_cell vcols v ''id'') (contents db ''_vert''))))"

text \<open>
  The rows of a batch that are due, lines 75 to 78 of \<open>batch\<close>: those whose id (\<open>x[1]\<close>,
  the second value of the row) is not the id of an up-to-date vertical document.
  \<open>x[1]\<close> raises \<open>IndexError\<close> on a row of fewer than two values.
\<close>

definition skip_up_to_date :: "vparams \<Rightarrow> database \<Rightarrow> sqlrow list \<Rightarrow> error + sqlrow list" where
  "skip_up_to_date P db batch =
     (case outdated_vert P db of
        Inl e \<Rightarrow> Inl e
      | Inr changed \<Rightarrow>
     (case select_vert_ids db of
        Inl e \<Rightarrow> Inl e
      | Inr ids \<Rightarrow>
     (let exists = filter (\<lambda>x. x \<notin> set changed) ids in
      if \<exists>x\<in>set batch. length x < 2 then Inl IndexError
      else Inr (filter (\<lambda>x. x ! 1 \<notin> set exists) batch))))"

text \<open>\<open>pd.DataFrame.from_records(batch, columns=cols)\<close> of stored rows.\<close>

definition sql_to_py :: "string option \<Rightarrow> pyval" where
  "sql_to_py v = (case v of None \<Rightarrow> PyNone | Some s \<Rightarrow> PyStr s)"

definition from_records :: "sqlrow list \<Rightarrow> string list \<Rightarrow> dataframe" where
  "from_records rs cols = \<lparr>columns = cols, rows = map (map sql_to_py) rs\<rparr>"

text \<open>
  \<open>batch(self)\<close>, the function that \<open>decorator.while_loop\<close> repeats: one batch. It
  returns whether to go on.
\<close>

definition batch :: "vparams \<Rightarrow> corpus \<Rightarrow> error + (bool \<times> corpus)" where
  "batch P self =
     (case fetch_batch P (cdb self) (vert_run self) (vert_size self) of
        Inl e \<Rightarrow> Inl e
      | Inr (b, offset) \<Rightarrow>
     (if b = [] then Inr (False, self)
      else
     (case skip_up_to_date P (cdb self) b of
        Inl e \<Rightarrow> Inl e
      | Inr b' \<Rightarrow>
     (if b' = [] then Inr (True, self\<lparr>vert_run := vert_run self + 1\<rparr>)
      else
     (case tables (cdb self) ''_raw'' of
        None \<Rightarrow> Inl (KeyError ''_raw'')
      | Some cols \<Rightarrow>
     (case batch_run P self (from_records b' cols) of
        Inl e \<Rightarrow> Inl e
      | Inr (token, self') \<Rightarrow>
          (let self'' = self'\<lparr>vert_run := vert_run self' + 1\<rparr>;
               repeat = limit_runs P (vert_run self'') (vert_runs self'')
           in Inr (repeat, self''))))))))"


section \<open>The crawler: \<open>source/reliefweb.py\<close>\<close>

subsection \<open>Requests and responses\<close>

text \<open>
  The request parameters are a dict; the keys the code reads are fields here, absent
  when \<open>None\<close>, and the others are kept in \<open>p_other\<close>. A filter has an operator, a list
  of conditions and possibly other keys. The value of a condition is plain, or a range
  \<open>{"from": t}\<close>; \<open>From t\<close> carries the timestamp whose \<open>isoformat()\<close> is sent.
\<close>

datatype cvalue = Plain string | From int

record condition =
  c_field :: string
  c_value :: cvalue

record rfilter =
  f_operator :: "string option"
  f_conditions :: "condition list option"
  f_other :: "(string \<times> string) list"

record parameters =
  p_offset :: "int option"
  p_sort :: "string list option"
  p_filter :: "rfilter option"
  p_other :: "(string \<times> string) list"

text \<open>
  A response: \<open>count\<close>, \<open>totalCount\<close> and \<open>data\<close>, a list of items. An item is a dict
  whose values are plain or, like \<open>fields\<close>, dicts themselves.
\<close>

datatype jentry = Leaf pyval | Nested "(string \<times> pyval) list"

type_synonym item = "(string \<times> jentry) list"

record page =
  p_count :: int
  p_total :: int
  p_data :: "item list"

text \<open>
  The parameters of the crawler's model, for what the sources do not hold:
  \<^item> \<open>server\<close>: the remote service: the response to the \<open>k\<close>-th request of the run,
    given its parameters, and the time \<open>self.now\<close> that \<open>_request\<close> records with it;
  \<^item> \<open>hashf\<close>: the digest of the parameters that \<open>_hash\<close> computes;
  \<^item> \<open>render\<close>: \<open>str()\<close> of the parameters dict;
  \<^item> \<open>pdf_flat\<close>: the reshaping of the attachment lists in \<open>_insert_pdf\<close>
    (\<open>explode\<close>, \<open>json_normalize\<close>, the \<open>id\<close> column); \<open>None\<close> when pandas raises;
  \<^item> \<open>vp\<close>: the parameters shared with the corpus (\<open>nan_like\<close>, \<open>json_changed\<close>,
    \<open>timestamp\<close>).
\<close>

record cparams =
  server :: "nat \<Rightarrow> parameters \<Rightarrow> page \<times> string"
  hashf :: "parameters \<Rightarrow> string"
  render :: "parameters \<Rightarrow> string"
  pdf_flat :: "dataframe \<Rightarrow> dataframe option"
  vp :: vparams

text \<open>
  The attributes of a \<open>ReliefWeb\<close> job. \<open>call_n\<close>, \<open>limit\<close> and \<open>response_json\<close> are
  \<open>None\<close> while the attribute is not set. \<open>calls\<close> is not an attribute: it records the
  parameters and the response of every request issued, oldest first.
\<close>

record job =
  parameters :: parameters
  original_parameters :: parameters
  call_n :: "nat option"
  limit :: "int option"
  response_json :: "page option"
  job_db :: "database option"
  raw :: "nat \<rightharpoonup> page"
  field_names :: "string set"
  hash :: string
  now :: string
  input_name :: string
  df_raw :: dataframe
  df_log :: dataframe
  date_changed_vals :: "int option list"
  wait_dict :: "(nat \<times> nat option) list"
  calls :: "(parameters \<times> page) list"

definition no_more_results :: string where
  "no_more_results = ''Call aborted: no more results.''"

definition sort_message :: string where
  "sort_message =
     ''Input parameters must be set to retrieve results sorted'' @ NL @
     ''            by date.changed in ascending order. Add '' @ [CHR 0x60, CHR 0x22] @ ''sort'' @
     [CHR 0x22] @ '': ['' @ [CHR 0x22] @ ''date.changed:asc'' @ [CHR 0x22] @ '']'' @ [CHR 0x60]"

subsection \<open>\<open>_offset\<close>\<close>

definition rw_offset :: "job \<Rightarrow> (error + unit) \<times> job" where
  "rw_offset self =
     (case call_n self of
        None \<Rightarrow> (Inl AttributeError, self)
      | Some n \<Rightarrow>
          (if n > 0 then
             (case p_offset (parameters self) of
                None \<Rightarrow> (Inl (KeyError ''offset''), self)
              | Some off \<Rightarrow>
                  (case response_json self of
                     None \<Rightarrow> (Inl AttributeError, self)
                   | Some resp \<Rightarrow>
                       (let self' = self\<lparr>parameters := (parameters self)\<lparr>p_offset := Some (off + p_count resp)\<rparr>\<rparr> in
                        if p_count resp = 0 then (Inl (UserWarning no_more_results), self')
                        else (Inr (), self'))))
           else (Inr (), self)))"

subsection \<open>\<open>_update_filter\<close> and \<open>new\<close>\<close>

text \<open>
  \<open>date_changed_vals.any()\<close> skips \<open>NaT\<close>: it holds when a timestamp is there;
  \<open>max()\<close> is then the greatest of them.
\<close>

definition rw_update_filter :: "job \<Rightarrow> job" where
  "rw_update_filter self =
     (let vals = List.map_filter (\<lambda>v. v) (date_changed_vals self) in
      if vals \<noteq> [] then
        (let latest = Max (set vals);
             old_conditions =
               (case p_filter (original_parameters self) of
                  None \<Rightarrow> []
                | Some f \<Rightarrow> (case f_conditions f of None \<Rightarrow> [] | Some cs \<Rightarrow> cs));
             new_conditions = [\<lparr>c_field = ''date.changed'', c_value = From latest\<rparr>];
             update = \<lparr>f_operator = Some ''AND'', f_conditions = Some (old_conditions @ new_conditions),
                       f_other = []\<rparr>
         in self\<lparr>parameters := (original_parameters self)\<lparr>p_filter := Some update\<rparr>\<rparr>)
      else self)"

text \<open>\<open>SELECT json_extract(_raw.date,'$.changed') FROM _raw\<close>, each value a \<open>pd.Timestamp\<close>.\<close>

definition select_date_changed :: "vparams \<Rightarrow> database \<Rightarrow> error + int option list" where
  "select_date_changed P d =
     (case tables d ''_raw'' of
        None \<Rightarrow> Inl OperationalError
      | Some rcols \<Rightarrow>
          (if ''date'' \<notin> set rcols then Inl OperationalError
           else
             (case collect (map (\<lambda>r. sql_changed P (sql_cell rcols r ''date'')) (contents d ''_raw'')) of
                Inl e \<Rightarrow> Inl e
              | Inr res \<Rightarrow> collect (map (to_timestamp P) res))))"


subsection \<open>Reshaping a response: \<open>insert\<close>\<close>

text \<open>
  \<open>pd.json_normalize(data, sep="_", max_level=1)\<close>: each item is flattened by one
  level (\<open>fields\<close> becomes the columns \<open>fields_<name>\<close>); the columns are the keys of
  all the items, in the order of their first appearance; a key an item lacks is \<open>NaN\<close>.
\<close>

definition flatten_item :: "item \<Rightarrow> (string \<times> pyval) list" where
  "flatten_item it =
     concat (map (\<lambda>(k, v). case v of
                     Leaf x \<Rightarrow> [(k, x)]
                   | Nested kvs \<Rightarrow> map (\<lambda>(k2, x). (k @ ''_'' @ k2, x)) kvs) it)"

definition first_seen :: "'a list \<Rightarrow> 'a list" where
  "first_seen xs = rev (remdups (rev xs))"

definition json_normalize :: "item list \<Rightarrow> dataframe" where
  "json_normalize data =
     (let recs = map flatten_item data;
          cols = first_seen (concat (map (map fst) recs))
      in \<lparr>columns = cols,
          rows = map (\<lambda>r. map (\<lambda>c. case map_of (rev r) c of None \<Rightarrow> PyNaN | Some v \<Rightarrow> v) cols) recs\<rparr>)"

text \<open>\<open>df.drop([c], axis=1, errors="ignore")\<close>.\<close>

definition drop_col :: "'a frame \<Rightarrow> string \<Rightarrow> 'a frame" where
  "drop_col df c =
     \<lparr>columns = filter (\<lambda>k. k \<noteq> c) (columns df),
      rows = map (\<lambda>row. map snd (filter (\<lambda>kv. fst kv \<noteq> c) (zip (columns df) row))) (rows df)\<rparr>"

text \<open>Python's \<open>s.replace(old, new)\<close>.\<close>

function replace_str :: "string \<Rightarrow> string \<Rightarrow> string \<Rightarrow> string" where
  "replace_str old new s =
     (if old = [] then new @ concat (map (\<lambda>c. c # new) s)
      else if s = [] then []
      else if take (length old) s = old then new @ replace_str old new (drop (length old) s)
      else hd s # replace_str old new (tl s))"
  by pat_completeness auto
termination
  by (relation "measure (\<lambda>(old, new, s). length s)") auto

declare replace_str.simps [simp del]

text \<open>\<open>df[c] = v\<close> for a scalar \<open>v\<close>: the column is overwritten, or added last.\<close>

definition set_col :: "'a frame \<Rightarrow> string \<Rightarrow> 'a \<Rightarrow> 'a frame" where
  "set_col df c v =
     (if c \<in> set (columns df)
      then df\<lparr>rows := map (\<lambda>row. map (\<lambda>kv. if fst kv = c then v else snd kv) (zip (columns df) row)) (rows df)\<rparr>
      else \<lparr>columns = columns df @ [c], rows = map (\<lambda>row. row @ [v]) (rows df)\<rparr>)"

text \<open>
  Modelled from the spec: \<open>Database._add_missing_columns\<close> is not among the sources.
  "For every record, if any field name is not yet a known column, the column is added
  (nullable) before insertion": the columns of the frame that the table lacks are
  added to the table, \<open>NULL\<close> in the rows it holds. The frame is then given the
  columns of the table it lacks, as \<open>None\<close>, which is what the older \<open>insert\<close>
  (\<open>datamgr/source/reliefweb.py\<close>, lines 111 to 112) does at this place.
\<close>

definition add_missing_columns :: "dataframe \<Rightarrow> string \<Rightarrow> database \<Rightarrow> error + (dataframe \<times> database)" where
  "add_missing_columns df table d =
     (case tables d table of
        None \<Rightarrow> Inl (KeyError table)
      | Some cols \<Rightarrow>
          (let new = filter (\<lambda>c. c \<notin> set cols) (first_seen (columns df));
               cols' = cols @ new;
               d' = d\<lparr>tables := (tables d)(table \<mapsto> cols'),
                       contents := (contents d)(table := map (\<lambda>r. r @ replicate (length new) None) (contents d table))\<rparr>;
               df' = foldl (\<lambda>f c. set_col f c PyNone) df (filter (\<lambda>c. c \<notin> set (columns df)) cols')
           in Inr (df', d')))"

text \<open>
  Every procedure of the job returns its result, or the exception it raises, and the job
  as it is left.
\<close>

definition rw_insert_log :: "cparams \<Rightarrow> job \<Rightarrow> (error + unit) \<times> job" where
  "rw_insert_log C self =
     (case response_json self of
        None \<Rightarrow> (Inl AttributeError, self)
      | Some resp \<Rightarrow>
          (let df = \<lparr>columns = [''api_params_hash'', ''api_params'', ''api_input'', ''api_date'', ''count'', ''total_count''],
                     rows = [[PyStr (hash self), PyObj (render C (parameters self)), PyStr (input_name self),
                              PyStr (now self), PyInt (p_count resp), PyInt (p_total resp)]]\<rparr>;
               self1 = self\<lparr>df_log := df\<rparr>
           in case job_db self1 of
                None \<Rightarrow> (Inl AttributeError, self1)
              | Some d \<Rightarrow>
                  (case db_insert (nan_like (vp C)) df ''_log'' d of
                     Inl e \<Rightarrow> (Inl e, self1)
                   | Inr d' \<Rightarrow> (Inr (), self1\<lparr>job_db := Some d'\<rparr>))))"

definition rw_insert_pdf :: "cparams \<Rightarrow> job \<Rightarrow> (error + unit) \<times> job" where
  "rw_insert_pdf C self =
     (if ''file'' \<notin> set (columns (df_raw self)) then (Inl (KeyError ''file''), self)
      else
        (let df = (df_raw self)\<lparr>rows := filter (\<lambda>row. case cell (columns (df_raw self)) row ''file'' of
                                                       None \<Rightarrow> False | Some v \<Rightarrow> notna v) (rows (df_raw self))\<rparr>
         in if \<not> empty_df df then
              (case pdf_flat C df of
                 None \<Rightarrow> (Inl PandasError, self)
               | Some df_flat \<Rightarrow>
                   (case job_db self of
                      None \<Rightarrow> (Inl AttributeError, self)
                    | Some d \<Rightarrow>
                        (case add_missing_columns df_flat ''_pdf'' d of
                           Inl e \<Rightarrow> (Inl e, self)
                         | Inr (df_flat', d1) \<Rightarrow>
                             (case db_insert (nan_like (vp C)) df_flat' ''_pdf'' d1 of
                                Inl e \<Rightarrow> (Inl e, self\<lparr>job_db := Some d1\<rparr>)
                              | Inr d2 \<Rightarrow> (Inr (), self\<lparr>job_db := Some d2\<rparr>)))))
            else (Inr (), self)))"

text \<open>
  The first lines of \<open>insert(self)\<close>: the data of the response as a frame, without the
  column \<open>fields_id\<close>, the prefix \<open>fields_\<close> removed from the labels and \<open>-\<close> replaced
  by \<open>_\<close>, with the three columns of the call.
\<close>

definition rw_reshape :: "job \<Rightarrow> page \<Rightarrow> dataframe" where
  "rw_reshape self resp =
     (let df0 = json_normalize (p_data resp);
          df1 = drop_col df0 ''fields_id'';
          df2 = df1\<lparr>columns := map (replace_str ''fields_'' []) (columns df1)\<rparr>;
          df3 = df2\<lparr>columns := map (\<lambda>col. if CHR ''-'' \<in> set col then replace_str ''-'' ''_'' col else col) (columns df2)\<rparr>;
          df4 = set_col df3 ''api_input'' (PyStr (input_name self));
          df5 = set_col df4 ''api_date'' (PyStr (now self))
      in set_col df5 ''api_params_hash'' (PyStr (hash self)))"

text \<open>\<open>insert(self)\<close>: the response is reshaped and written to \<open>_raw\<close>, \<open>_log\<close> and \<open>_pdf\<close>.\<close>

definition rw_insert :: "cparams \<Rightarrow> job \<Rightarrow> (error + unit) \<times> job" where
  "rw_insert C self =
     (case response_json self of
        None \<Rightarrow> (Inl AttributeError, self)
      | Some resp \<Rightarrow>
     (case job_db self of
        None \<Rightarrow> (Inl AttributeError, self)
      | Some d \<Rightarrow>
     (case add_missing_columns (rw_reshape self resp) ''_raw'' d of
        Inl e \<Rightarrow> (Inl e, self)
      | Inr (df, d1) \<Rightarrow>
     (let self1 = self\<lparr>job_db := Some d1, df_raw := df\<rparr> in
      if \<not> empty_df df then
        (case db_insert (nan_like (vp C)) df ''_raw'' d1 of
           Inl e \<Rightarrow> (Inl e, self1)
         | Inr d2 \<Rightarrow>
             (case rw_insert_log C (self1\<lparr>job_db := Some d2\<rparr>) of
                (Inl e, self3) \<Rightarrow> (Inl e, self3)
              | (Inr u, self3) \<Rightarrow> rw_insert_pdf C self3))
      else (Inl (UserWarning no_more_results), self1)))))"

subsection \<open>The call loop: \<open>one\<close>, \<open>all\<close>, \<open>new\<close>\<close>

text \<open>
  Modelled from the spec: \<open>Call._enforce_quota\<close> is not among the sources. "A
  monotonically increasing call index is mapped through an ordered table of
  \<open>{threshold: wait_seconds}\<close> buckets. The bucket is chosen as the greatest threshold
  \<open>\<le>\<close> current call index; a \<open>None\<close> wait value means the crawl must halt rather than
  sleep." A pause only delays the next call and changes nothing here; from inside
  \<open>one\<close>, halting is an exception.
\<close>

definition bucket :: "(nat \<times> nat option) list \<Rightarrow> nat \<Rightarrow> nat option option" where
  "bucket wd n =
     (let ths = filter (\<lambda>t. t \<le> n) (map fst wd) in
      if ths = [] then None else map_of wd (Max (set ths)))"

definition rw_enforce_quota :: "job \<Rightarrow> (error + unit) \<times> job" where
  "rw_enforce_quota self =
     (case call_n self of
        None \<Rightarrow> (Inl AttributeError, self)
      | Some n \<Rightarrow> (if bucket (wait_dict self) n = Some None then (Inl QuotaHalt, self) else (Inr (), self)))"

text \<open>
  \<open>_request\<close> and \<open>_hash\<close> are not among the sources: the request is answered by
  \<open>server\<close> and leaves \<open>response_json\<close> and \<open>now\<close>; the digest is \<open>hashf\<close> of the
  parameters.
\<close>

definition rw_request :: "cparams \<Rightarrow> job \<Rightarrow> job" where
  "rw_request C self =
     (let (resp, t) = server C (length (calls self)) (parameters self)
      in self\<lparr>response_json := Some resp, now := t, calls := calls self @ [(parameters self, resp)]\<rparr>)"

definition rw_hash :: "cparams \<Rightarrow> job \<Rightarrow> job" where
  "rw_hash C self = self\<lparr>hash := hashf C (parameters self)\<rparr>"

text \<open>\<open>_get_field_names\<close>: the keys of \<open>x["fields"]\<close> of every item \<open>x\<close>.\<close>

fun item_field_names :: "item list \<Rightarrow> error + string set" where
  "item_field_names [] = Inr {}"
| "item_field_names (x # xs) =
     (case map_of x ''fields'' of
        None \<Rightarrow> Inl (KeyError ''fields'')
      | Some (Leaf v) \<Rightarrow> Inl AttributeError
      | Some (Nested kvs) \<Rightarrow>
          (case item_field_names xs of Inl e \<Rightarrow> Inl e | Inr ns \<Rightarrow> Inr (set (map fst kvs) \<union> ns)))"

definition rw_get_field_names :: "job \<Rightarrow> (error + unit) \<times> job" where
  "rw_get_field_names self =
     (case response_json self of
        None \<Rightarrow> (Inl AttributeError, self)
      | Some resp \<Rightarrow>
          (case item_field_names (p_data resp) of
             Inl e \<Rightarrow> (Inl e, self\<lparr>field_names := {}\<rparr>)
           | Inr ns \<Rightarrow> (Inr (), self\<lparr>field_names := ns\<rparr>)))"

text \<open>
  The body of \<open>one\<close>, which \<open>decorator.while_loop\<close> repeats: one call. It returns
  whether to go on.
\<close>

definition one_body :: "cparams \<Rightarrow> job \<Rightarrow> (error + bool) \<times> job" where
  "one_body C self0 =
     (let n = (case call_n self0 of None \<Rightarrow> 0 | Some n \<Rightarrow> n);
          l = (case limit self0 of None \<Rightarrow> 1 | Some l \<Rightarrow> l);
          self = self0\<lparr>call_n := Some n, limit := Some l\<rparr>
      in if int n \<ge> l then (Inr False, self)
         else
     (case rw_enforce_quota self of
        (Inl e, self1) \<Rightarrow> (Inl e, self1)
      | (Inr u, self1) \<Rightarrow>
     (case rw_offset self1 of
        (Inl e, self2) \<Rightarrow> (Inl e, self2)
      | (Inr u, self2) \<Rightarrow>
     (let self3 = rw_request C self2 in
      case rw_get_field_names self3 of
        (Inl e, self4) \<Rightarrow> (Inl e, self4)
      | (Inr u, self4) \<Rightarrow>
     (let self5 = rw_hash C self4 in
      case (if job_db self5 = None
            then (case response_json self5 of
                    None \<Rightarrow> (Inl AttributeError, self5)
                  | Some resp \<Rightarrow> (Inr (), self5\<lparr>raw := (raw self5)(n \<mapsto> resp)\<rparr>))
            else rw_insert C self5) of
        (Inl e, self6) \<Rightarrow> (Inl e, self6)
      | (Inr u, self6) \<Rightarrow>
          (case call_n self6 of
             None \<Rightarrow> (Inl AttributeError, self6)
           | Some m \<Rightarrow> (Inr True, self6\<lparr>call_n := Some (m + 1)\<rparr>)))))))"

text \<open>The calls still allowed: the measure of the loop.\<close>

definition calls_left :: "job \<Rightarrow> nat" where
  "calls_left self =
     nat ((case limit self of None \<Rightarrow> 1 | Some l \<Rightarrow> l) - int (case call_n self of None \<Rightarrow> 0 | Some n \<Rightarrow> n))"

text \<open>The calls of \<open>insert\<close> leave the counters, the parameters, the response and the record of the calls alone.\<close>

lemma rw_insert_log_frame:
  "rw_insert_log C self = (r, self') \<Longrightarrow>
     call_n self' = call_n self \<and> limit self' = limit self \<and> parameters self' = parameters self \<and>
     calls self' = calls self \<and> response_json self' = response_json self \<and> raw self' = raw self \<and>
     wait_dict self' = wait_dict self"
  by (auto simp: rw_insert_log_def Let_def split: option.splits sum.splits)

lemma rw_insert_pdf_frame:
  "rw_insert_pdf C self = (r, self') \<Longrightarrow>
     call_n self' = call_n self \<and> limit self' = limit self \<and> parameters self' = parameters self \<and>
     calls self' = calls self \<and> response_json self' = response_json self \<and> raw self' = raw self \<and>
     wait_dict self' = wait_dict self"
  by (auto simp: rw_insert_pdf_def Let_def split: option.splits sum.splits if_splits prod.splits)

lemma rw_insert_frame:
  "rw_insert C self = (r, self') \<Longrightarrow>
     call_n self' = call_n self \<and> limit self' = limit self \<and> parameters self' = parameters self \<and>
     calls self' = calls self \<and> response_json self' = response_json self \<and> raw self' = raw self \<and>
     wait_dict self' = wait_dict self"
  by (auto simp: rw_insert_def Let_def split: option.splits sum.splits if_splits prod.splits
      dest!: rw_insert_log_frame rw_insert_pdf_frame)

lemma one_body_continue:
  assumes "one_body C self = (Inr True, self')"
  shows "calls_left self' < calls_left self"
  using assms
  by (auto simp: one_body_def Let_def calls_left_def rw_enforce_quota_def rw_offset_def rw_request_def
      rw_get_field_names_def rw_hash_def
      split: option.splits sum.splits if_splits prod.splits dest!: rw_insert_frame)

text \<open>
  Modelled from the spec: \<open>decorator.while_loop\<close> is not among the sources. It calls the
  function it decorates again and again while it returns true ("continue driven by
  boolean-returning loop callbacks"); what the function raises leaves the loop.
\<close>

function one :: "cparams \<Rightarrow> job \<Rightarrow> (error + unit) \<times> job" where
  "one C self =
     (case one_body C self of
        (Inl e, self') \<Rightarrow> (Inl e, self')
      | (Inr go, self') \<Rightarrow> if go then one C self' else (Inr (), self'))"
  by pat_completeness auto
termination
proof (relation "measure (\<lambda>(C, self). calls_left self)")
  show "wf (measure (\<lambda>(C, self). calls_left self))" by simp
next
  fix C self x y x2
  assume "(x, y) = one_body C self" "x = Inr x2" "x2"
  then show "((C, y), (C, self)) \<in> measure (\<lambda>(C, self). calls_left self)"
    using one_body_continue[of C self y] by simp
qed

declare one.simps [simp del]

text \<open>\<open>all(limit)\<close>: the calls of a full run. (\<open>_set_wait\<close> sets the pause only.)\<close>

definition rw_all :: "cparams \<Rightarrow> int \<Rightarrow> job \<Rightarrow> (error + unit) \<times> job" where
  "rw_all C lim self = one C (self\<lparr>limit := Some lim, call_n := Some 0\<rparr>)"

text \<open>\<open>new(limit)\<close>: the calls of an incremental run.\<close>

definition rw_new :: "cparams \<Rightarrow> int \<Rightarrow> job \<Rightarrow> (error + unit) \<times> job" where
  "rw_new C lim self0 =
     (let self = self0\<lparr>parameters := (parameters self0)\<lparr>p_offset := Some 0\<rparr>\<rparr> in
      if p_sort (parameters self) \<noteq> Some [''date.changed:asc''] then (Inl (ValueError sort_message), self)
      else
        (case job_db self of
           None \<Rightarrow> (Inl AttributeError, self)
         | Some d \<Rightarrow>
             (case select_date_changed (vp C) d of
                Inl e \<Rightarrow> (Inl e, self)
              | Inr vals \<Rightarrow> rw_all C lim (rw_update_filter (self\<lparr>date_changed_vals := vals\<rparr>)))))"

section \<open>Properties of the storage\<close>

subsection \<open>Notions used in the statements\<close>

text \<open>
  \<open>upsert_all\<close> is \<open>INSERT OR REPLACE\<close> of a list of records, one after the other.
  A table is \<open>keyed\<close> when no two of its rows have the same (non-\<open>NULL\<close>) key.
\<close>

definition upsert_all :: "(sqlrow \<Rightarrow> string option) \<Rightarrow> sqlrow list \<Rightarrow> sqlrow list \<Rightarrow> sqlrow list" where
  "upsert_all kf tbl recs = foldl (\<lambda>t r. insert_or_replace kf r t) tbl recs"

definition keyed :: "(sqlrow \<Rightarrow> string option) \<Rightarrow> sqlrow list \<Rightarrow> bool" where
  "keyed kf tbl = distinct (List.map_filter kf tbl)"

text \<open>
  The key of a row of a table of the database; the records that \<open>Database.insert\<close>
  passes to \<open>executemany\<close> for a frame; and a sequence of inserts, where an insert
  that raises leaves the database as it was.
\<close>

definition table_key :: "database \<Rightarrow> string \<Rightarrow> sqlrow \<Rightarrow> string option" where
  "table_key db t = key_of (case tables db t of None \<Rightarrow> [] | Some cols \<Rightarrow> cols) (pkey db t)"

definition keyed_table :: "database \<Rightarrow> string \<Rightarrow> bool" where
  "keyed_table db t = keyed (table_key db t) (contents db t)"

definition stored_records :: "(string \<Rightarrow> bool) \<Rightarrow> dataframe \<Rightarrow> string list \<Rightarrow> sqlrow list" where
  "stored_records nl df cols =
     map (\<lambda>row. select_row cols (columns df) (map (\<lambda>v. nan_to_none_cell nl (py_str v)) row)) (rows df)"

definition db_inserts :: "(string \<Rightarrow> bool) \<Rightarrow> (dataframe \<times> string) list \<Rightarrow> database \<Rightarrow> database" where
  "db_inserts nl ops db =
     foldl (\<lambda>d (df, t). case db_insert nl df t d of Inl e \<Rightarrow> d | Inr d' \<Rightarrow> d') db ops"

text \<open>A small database, a frame with a column the registry does not have, and the nan-like renderings.\<close>

definition ex_nl :: "string \<Rightarrow> bool" where
  "ex_nl s = (s = ''None'' \<or> s = ''nan'')"

definition ex_db :: database where
  "ex_db = \<lparr>tables = [''_raw'' \<mapsto> [''id'', ''title'']], pkey = [''_raw'' \<mapsto> ''id''], contents = (\<lambda>t. [])\<rparr>"

definition ex_df :: dataframe where
  "ex_df = \<lparr>columns = [''title'', ''id'', ''extra''],
            rows = [[PyStr ''a'', PyInt 1, PyNaN], [PyStr ''b'', PyInt 2, PyStr ''x''], [PyNone, PyInt 1, PyStr ''y'']]\<rparr>"

definition ex_df_registered :: dataframe where
  "ex_df_registered = \<lparr>columns = [''id'', ''title''],
            rows = [[PyInt 1, PyStr ''a''], [PyInt 2, PyStr ''b''], [PyInt 1, PyNone]]\<rparr>"

definition ex_db1 :: database where
  "ex_db1 = ex_db\<lparr>contents := (contents ex_db)(''_raw'' := [[Some ''2'', Some ''b''], [Some ''1'', None]])\<rparr>"

subsection \<open>\<open>INSERT OR REPLACE\<close> on a keyed table\<close>

lemma executemany_upsert_all:
  "executemany n kf recs tbl = Inr tbl' \<Longrightarrow> tbl' = upsert_all kf tbl recs \<and> (\<forall>r\<in>set recs. length r = n)"
  by (induction recs arbitrary: tbl) (auto simp: upsert_all_def split: if_splits)

lemma executemany_ok:
  "\<forall>r\<in>set recs. length r = n \<Longrightarrow> executemany n kf recs tbl = Inr (upsert_all kf tbl recs)"
  by (induction recs arbitrary: tbl) (auto simp: upsert_all_def)

lemma upsert_all_snoc: "upsert_all kf tbl (recs @ [r]) = insert_or_replace kf r (upsert_all kf tbl recs)"
  by (simp add: upsert_all_def)

lemma upsert_all_split:
  "upsert_all kf tbl recs =
     filter (\<lambda>x. kf x = None \<or> kf x \<notin> kf ` set recs) tbl @ upsert_all kf [] recs"
proof (induction recs rule: rev_induct)
  case Nil
  then show ?case by (simp add: upsert_all_def)
next
  case (snoc r recs)
  show ?case
  proof (cases "kf r")
    case None
    then show ?thesis
      using snoc by (auto simp: upsert_all_snoc insert_or_replace_def intro!: filter_cong)
  next
    case (Some k)
    then show ?thesis
      using snoc by (auto simp: upsert_all_snoc insert_or_replace_def intro!: filter_cong)
  qed
qed

lemma set_upsert_all: "set (upsert_all kf tbl recs) \<subseteq> set tbl \<union> set recs"
  by (induction recs rule: rev_induct)
     (auto simp: upsert_all_snoc insert_or_replace_def upsert_all_def split: option.splits)

lemma upsert_all_idem:
  assumes "\<forall>r\<in>set recs. kf r \<noteq> None"
  shows "upsert_all kf (upsert_all kf tbl recs) recs = upsert_all kf tbl recs"
proof -
  let ?P = "\<lambda>x. kf x = None \<or> kf x \<notin> kf ` set recs"
  have "filter ?P (upsert_all kf [] recs) = []"
    using set_upsert_all[of kf "[]" recs] assms by (auto simp: filter_empty_conv)
  then show ?thesis
    by (subst upsert_all_split, subst (2) upsert_all_split, subst (3) upsert_all_split) simp
qed

lemma map_filter_append: "List.map_filter f (xs @ ys) = List.map_filter f xs @ List.map_filter f ys"
  by (simp add: List.map_filter_def)

lemma map_filter_drop_key:
  "List.map_filter kf (filter (\<lambda>x. kf x \<noteq> Some k) tbl) = filter (\<lambda>k'. k' \<noteq> k) (List.map_filter kf tbl)"
  by (induction tbl) (auto simp: map_filter_simps split: option.splits)

lemma keyed_insert_or_replace: "keyed kf tbl \<Longrightarrow> keyed kf (insert_or_replace kf r tbl)"
  by (auto simp: keyed_def insert_or_replace_def map_filter_append map_filter_drop_key
      map_filter_simps split: option.splits)

lemma keyed_upsert_all: "keyed kf tbl \<Longrightarrow> keyed kf (upsert_all kf tbl recs)"
  by (induction recs rule: rev_induct) (auto simp: upsert_all_snoc keyed_insert_or_replace, simp add: upsert_all_def)

lemma map_filter_mem: "x \<in> set tbl \<Longrightarrow> kf x = Some k \<Longrightarrow> k \<in> set (List.map_filter kf tbl)"
  by (auto simp: List.map_filter_def intro!: image_eqI[of _ _ x])

lemma keyed_unique:
  "keyed kf tbl \<Longrightarrow> x \<in> set tbl \<Longrightarrow> y \<in> set tbl \<Longrightarrow> kf x = Some k \<Longrightarrow> kf y = Some k \<Longrightarrow> x = y"
proof (induction tbl)
  case Nil
  then show ?case by simp
next
  case (Cons a tbl)
  then show ?case
    by (auto simp: keyed_def map_filter_simps dest: map_filter_mem split: option.splits)
qed

lemma upsert_all_last:
  "kf r = Some k \<Longrightarrow> \<forall>y\<in>set post. kf y \<noteq> Some k \<Longrightarrow> r \<in> set (upsert_all kf tbl (pre @ r # post))"
proof (induction post rule: rev_induct)
  case Nil
  then show ?case using upsert_all_snoc[of kf tbl pre r] by (auto simp: insert_or_replace_def)
next
  case (snoc y post)
  then have "r \<in> set (upsert_all kf tbl (pre @ r # post))" by simp
  moreover have "upsert_all kf tbl (pre @ r # post @ [y]) = insert_or_replace kf y (upsert_all kf tbl (pre @ r # post))"
    using upsert_all_snoc[of kf tbl "pre @ r # post" y] by simp
  ultimately show ?case using snoc.prems by (auto simp: insert_or_replace_def split: option.splits)
qed

lemma upsert_all_key_rows:
  "x \<in> set (upsert_all kf tbl recs) \<Longrightarrow> kf x = Some k \<Longrightarrow> Some k \<in> kf ` set recs \<Longrightarrow> x \<in> set recs"
  using set_upsert_all[of kf "[]" recs] by (subst (asm) upsert_all_split) auto

subsection \<open>\<open>Database.insert\<close>\<close>

lemma db_insert_Inr:
  assumes "db_insert nl df t db = Inr db'"
  shows "\<exists>cols. tables db t = Some cols \<and> set cols \<subseteq> set (columns df) \<and>
           (\<forall>r\<in>set (stored_records nl df cols). length r = length cols) \<and>
           db' = db\<lparr>contents := (contents db)(t := upsert_all (table_key db t) (contents db t) (stored_records nl df cols))\<rparr>"
proof -
  from assms obtain cols where c: "tables db t = Some cols"
    by (auto simp: db_insert_def Let_def split: option.splits)
  from assms c obtain sel where s: "getitem_cols (nan_to_none nl (astype_str df)) cols = Inr sel"
    by (auto simp: db_insert_def Let_def split: sum.splits)
  from s have sub: "set cols \<subseteq> set (columns df)"
    by (auto simp: getitem_cols_def nan_to_none_def astype_str_def filter_empty_conv split: list.splits)
  from s have r: "rows sel = stored_records nl df cols"
    by (auto simp: getitem_cols_def nan_to_none_def astype_str_def stored_records_def comp_def split: list.splits)
  from assms c s obtain tbl where e: "executemany (length cols) (key_of cols (pkey db t)) (rows sel) (contents db t) = Inr tbl"
    and d: "db' = db\<lparr>contents := (contents db)(t := tbl)\<rparr>"
    by (auto simp: db_insert_def Let_def split: sum.splits)
  from executemany_upsert_all[OF e] c r d sub show ?thesis
    by (auto simp: table_key_def)
qed

lemma db_insert_ok:
  assumes "tables db t = Some cols" "set cols \<subseteq> set (columns df)"
    "\<forall>r\<in>set (stored_records nl df cols). length r = length cols"
  shows "db_insert nl df t db =
     Inr (db\<lparr>contents := (contents db)(t := upsert_all (table_key db t) (contents db t) (stored_records nl df cols))\<rparr>)"
proof -
  have f: "filter (\<lambda>c. c \<notin> set (columns df)) cols = []"
    using assms(2) by (auto simp: filter_empty_conv)
  have s: "getitem_cols (nan_to_none nl (astype_str df)) cols =
      Inr \<lparr>columns = select_row cols (columns df) (columns df), rows = stored_records nl df cols\<rparr>"
    using f by (simp add: getitem_cols_def nan_to_none_def astype_str_def stored_records_def comp_def)
  show ?thesis
    using assms(1,3) s executemany_ok[of "stored_records nl df cols" "length cols"]
    by (simp add: db_insert_def Let_def table_key_def)
qed


lemma db_insert_frame:
  assumes "db_insert nl df t db = Inr db'"
  shows "tables db' = tables db" "pkey db' = pkey db" "table_key db' = table_key db"
    "\<And>t'. t' \<noteq> t \<Longrightarrow> contents db' t' = contents db t'"
  using db_insert_Inr[OF assms] by (auto simp: table_key_def fun_eq_iff)

lemma keyed_db_insert:
  assumes "db_insert nl df t db = Inr db'" "keyed_table db u"
  shows "keyed_table db' u"
proof -
  from db_insert_Inr[OF assms(1)] obtain cols where
    d: "db' = db\<lparr>contents := (contents db)(t := upsert_all (table_key db t) (contents db t) (stored_records nl df cols))\<rparr>"
    by blast
  have k: "table_key db' = table_key db" by (rule db_insert_frame[OF assms(1)])
  show ?thesis
  proof (cases "u = t")
    case True
    with assms(2) d k show ?thesis
      by (simp add: keyed_table_def keyed_upsert_all)
  next
    case False
    with assms(2) d k show ?thesis
      by (simp add: keyed_table_def)
  qed
qed

lemma keyed_db_inserts: "keyed_table db u \<Longrightarrow> keyed_table (db_inserts nl ops db) u"
proof (induction ops rule: rev_induct)
  case Nil
  then show ?case by (simp add: db_inserts_def)
next
  case (snoc op ops)
  obtain df t where op: "op = (df, t)" by (cases op)
  have "db_inserts nl (ops @ [op]) db =
      (case db_insert nl df t (db_inserts nl ops db) of Inl e \<Rightarrow> db_inserts nl ops db | Inr d' \<Rightarrow> d')"
    unfolding db_inserts_def op by simp
  with snoc show ?case
    by (auto split: sum.splits intro: keyed_db_insert)
qed
lemma select_row_map: "select_row labels names (map f row) = map f (select_row labels names row)"
  by (simp add: select_row_def zip_map2 filter_map comp_def map_concat case_prod_beta)

lemma stored_records_getitem:
  assumes "getitem_cols df cols = Inr sel"
  shows "stored_records nl df cols = map (map (\<lambda>v. nan_to_none_cell nl (py_str v))) (rows sel)"
  using assms by (auto simp: getitem_cols_def stored_records_def select_row_map split: list.splits)

lemma getitem_cols_Inr: "(\<exists>sel. getitem_cols df cols = Inr sel) \<longleftrightarrow> set cols \<subseteq> set (columns df)"
proof (cases "filter (\<lambda>c. c \<notin> set (columns df)) cols")
  case Nil
  then show ?thesis by (auto simp: getitem_cols_def filter_empty_conv)
next
  case (Cons c cs)
  have "c \<in> set (c # cs)" by simp
  then have "c \<in> set cols" "c \<notin> set (columns df)"
    unfolding Cons[symmetric] by auto
  with Cons show ?thesis by (auto simp: getitem_cols_def)
qed

lemma str_int_1: "str_int 1 = ''1''"
  by (simp add: str_int_def str_nat.simps digit_char_def)

lemma str_int_2: "str_int 2 = ''2''"
  by (simp add: str_int_def str_nat.simps digit_char_def)

lemma ex_db_insert: "db_insert ex_nl ex_df ''_raw'' ex_db = Inr ex_db1"
  by (simp add: db_insert_def ex_df_def ex_db_def ex_db1_def ex_nl_def astype_str_def nan_to_none_def
      nan_to_none_cell_def getitem_cols_def select_row_def key_of_def insert_or_replace_def
      str_int_1 str_int_2)

lemma ex_stored_records:
  "stored_records ex_nl ex_df [''id'', ''title''] =
     [[Some ''1'', Some ''a''], [Some ''2'', Some ''b''], [Some ''1'', None]]"
  by (simp add: stored_records_def ex_df_def ex_nl_def nan_to_none_cell_def select_row_def
      str_int_1 str_int_2)

text \<open>
  C1. Upsert is idempotent and keyed. Let a batch be inserted into a table whose rows
  have pairwise different keys, every record of the batch having an id (a key that is
  not \<open>NULL\<close>: a raw record has one). Then inserting the same batch again leaves the
  database exactly as the first insert left it; whatever inserts follow, into this or
  any other table, the table never holds two rows with the same key; and for every
  key of the batch the table holds exactly one row, which is the last record of the
  batch with that key, whole: the earlier row is replaced, never merged.
\<close>

theorem upsert_idempotent_keyed:
  assumes ins: "db_insert nl df t db = Inr db'"
    and cols: "tables db t = Some cols"
    and ids: "\<forall>r\<in>set (stored_records nl df cols). table_key db t r \<noteq> None"
    and inv: "keyed_table db t"
  shows "db_insert nl df t db' = Inr db'
       \<and> (\<forall>ops. keyed_table (db_inserts nl ops db') t)
       \<and> (\<forall>pre r post k. stored_records nl df cols = pre @ r # post \<and> table_key db t r = Some k
              \<and> (\<forall>y\<in>set post. table_key db t y \<noteq> Some k)
            \<longrightarrow> r \<in> set (contents db' t) \<and> (\<forall>x\<in>set (contents db' t). table_key db t x = Some k \<longrightarrow> x = r))"
proof -
  let ?recs = "stored_records nl df cols"
  let ?kf = "table_key db t"
  from db_insert_Inr[OF ins] cols have sub: "set cols \<subseteq> set (columns df)"
    and len: "\<forall>r\<in>set ?recs. length r = length cols"
    and d: "db' = db\<lparr>contents := (contents db)(t := upsert_all ?kf (contents db t) ?recs)\<rparr>"
    by auto
  have k: "table_key db' = table_key db" by (rule db_insert_frame[OF ins])
  have c': "contents db' t = upsert_all ?kf (contents db t) ?recs" using d by simp
  have t': "tables db' t = Some cols" using d cols by simp
  have "db_insert nl df t db' =
      Inr (db'\<lparr>contents := (contents db')(t := upsert_all (table_key db' t) (contents db' t) ?recs)\<rparr>)"
    by (rule db_insert_ok[OF t' sub len])
  also have "upsert_all (table_key db' t) (contents db' t) ?recs = contents db' t"
    unfolding k c' by (rule upsert_all_idem[OF ids])
  finally have idem: "db_insert nl df t db' = Inr db'" by simp
  have kd: "keyed_table db' t" by (rule keyed_db_insert[OF ins inv])
  then have seq: "\<forall>ops. keyed_table (db_inserts nl ops db') t"
    by (simp add: keyed_db_inserts)
  have last: "r \<in> set (contents db' t) \<and> (\<forall>x\<in>set (contents db' t). ?kf x = Some k \<longrightarrow> x = r)"
    if "?recs = pre @ r # post" "?kf r = Some k" "\<forall>y\<in>set post. ?kf y \<noteq> Some k" for pre r post k
  proof -
    have r: "r \<in> set (contents db' t)"
      unfolding c' that(1) by (rule upsert_all_last[OF that(2,3)])
    moreover have "x = r" if "x \<in> set (contents db' t)" "?kf x = Some k" for x
      using kd k keyed_unique[of ?kf "contents db' t" x r k] that r \<open>?kf r = Some k\<close>
      by (simp add: keyed_table_def)
    ultimately show ?thesis by blast
  qed
  from idem seq last show ?thesis by blast
qed

theorem upsert_idempotent_keyed_witness:
  "db_insert ex_nl ex_df ''_raw'' ex_db = Inr ex_db1
   \<and> db_insert ex_nl ex_df ''_raw'' ex_db1 = Inr ex_db1
   \<and> keyed_table (db_inserts ex_nl [(ex_df, ''_raw''), (ex_df_registered, ''_raw'')] ex_db1) ''_raw''
   \<and> [Some ''1'', None] \<in> set (contents ex_db1 ''_raw'')"
proof -
  have cols: "tables ex_db ''_raw'' = Some [''id'', ''title'']"
    by (simp add: ex_db_def)
  have ids: "\<forall>r\<in>set (stored_records ex_nl ex_df [''id'', ''title'']). table_key ex_db ''_raw'' r \<noteq> None"
    by (simp add: ex_stored_records table_key_def key_of_def ex_db_def)
  have inv: "keyed_table ex_db ''_raw''"
    by (simp add: keyed_table_def keyed_def ex_db_def map_filter_simps)
  have last: "stored_records ex_nl ex_df [''id'', ''title''] =
      [[Some ''1'', Some ''a''], [Some ''2'', Some ''b'']] @ [Some ''1'', None] # []
    \<and> table_key ex_db ''_raw'' [Some ''1'', None] = Some ''1''
    \<and> (\<forall>y\<in>set []. table_key ex_db ''_raw'' y \<noteq> Some ''1'')"
    by (simp add: ex_stored_records table_key_def key_of_def ex_db_def)
  from upsert_idempotent_keyed[OF ex_db_insert cols ids inv] last ex_db_insert
  show ?thesis by blast
qed

text \<open>
  C10. When \<open>Database.insert\<close> succeeds, every row it leaves in the table that was not
  there before consists of the cells of one row of the frame under the registered
  columns of the table, in the order of the registry, one value per registered column,
  each cell rendered with \<open>str()\<close> and then replaced by \<open>None\<close> (\<open>NULL\<close>) when the
  rendering is nan-like. The columns of the frame that the registry does not have are
  dropped: any frame with the same registered columns is stored in the same way.
\<close>

theorem db_insert_registry_columns:
  assumes ins: "db_insert nl df t db = Inr db'"
  shows "\<exists>cols. tables db t = Some cols \<and>
      (\<forall>r\<in>set (contents db' t). r \<in> set (contents db t) \<or>
          (\<exists>row\<in>set (rows df). length r = length cols \<and>
              r = select_row cols (columns df) (map (\<lambda>v. nan_to_none_cell nl (py_str v)) row))) \<and>
      (\<forall>df2. getitem_cols df2 cols = getitem_cols df cols \<longrightarrow> db_insert nl df2 t db = Inr db')"
proof -
  from db_insert_Inr[OF ins] obtain cols where cols: "tables db t = Some cols"
    and sub: "set cols \<subseteq> set (columns df)"
    and len: "\<forall>r\<in>set (stored_records nl df cols). length r = length cols"
    and d: "db' = db\<lparr>contents := (contents db)(t := upsert_all (table_key db t) (contents db t) (stored_records nl df cols))\<rparr>"
    by blast
  have rows: "r \<in> set (contents db t) \<or>
          (\<exists>row\<in>set (rows df). length r = length cols \<and>
              r = select_row cols (columns df) (map (\<lambda>v. nan_to_none_cell nl (py_str v)) row))"
    if "r \<in> set (contents db' t)" for r
  proof -
    from that d have "r \<in> set (contents db t) \<union> set (stored_records nl df cols)"
      using set_upsert_all[of "table_key db t" "contents db t" "stored_records nl df cols"] by auto
    then show ?thesis
      using len by (auto simp: stored_records_def)
  qed
  have same: "db_insert nl df2 t db = Inr db'" if eq: "getitem_cols df2 cols = getitem_cols df cols" for df2
  proof -
    from sub obtain sel where s: "getitem_cols df cols = Inr sel"
      using getitem_cols_Inr[of df cols] by blast
    with eq have s2: "getitem_cols df2 cols = Inr sel" by simp
    then have sub2: "set cols \<subseteq> set (columns df2)"
      using getitem_cols_Inr[of df2 cols] by blast
    have r: "stored_records nl df2 cols = stored_records nl df cols"
      by (simp add: stored_records_getitem[OF s] stored_records_getitem[OF s2])
    show ?thesis
      using db_insert_ok[OF cols sub2, of nl] len d by (simp add: r)
  qed
  from cols rows same show ?thesis by blast
qed

theorem db_insert_registry_columns_witness:
  "db_insert ex_nl ex_df ''_raw'' ex_db = Inr ex_db1
   \<and> db_insert ex_nl ex_df_registered ''_raw'' ex_db = Inr ex_db1"
proof -
  from db_insert_registry_columns[OF ex_db_insert] obtain cols where
    c: "tables ex_db ''_raw'' = Some cols" and
    same: "\<forall>df2. getitem_cols df2 cols = getitem_cols ex_df cols \<longrightarrow> db_insert ex_nl df2 ''_raw'' ex_db = Inr ex_db1"
    by blast
  from c have cols: "cols = [''id'', ''title'']"
    by (simp add: ex_db_def)
  have "getitem_cols ex_df_registered cols = getitem_cols ex_df cols"
    by (simp add: cols getitem_cols_def ex_df_def ex_df_registered_def select_row_def)
  with same ex_db_insert show ?thesis by blast
qed


section \<open>Properties of the vertical text\<close>

subsection \<open>Notions used in the statements\<close>




text \<open>A lemma fixer, a tagset and a word; a vertical frame with an empty document.\<close>

definition ex_fix_lemma :: "word \<Rightarrow> string" where
  "ex_fix_lemma w = (case w_lemma w of None \<Rightarrow> w_text w | Some l \<Rightarrow> l)"

definition ex_tagset :: tagset where
  "ex_tagset = [''NNS'' \<mapsto> [''lpos'' \<mapsto> ''-n'']]"

definition ex_word :: word where
  "ex_word = \<lparr>w_text = ''Cats'', w_xpos = ''NNS'', w_lemma = Some ''cat''\<rparr>"


subsection \<open>Formatting\<close>

lemma make_lines_length: "make_lines fl ts sent = Inr ls \<Longrightarrow> length ls = length sent"
  by (induction sent arbitrary: ls) (auto split: sum.splits)

lemma lemmatize_fail_all_lemmas:
  "\<forall>w\<in>set sent. w_lemma w \<noteq> None \<Longrightarrow> lemmatize_fail ids sent x lg = Inr lg"
  by (induction sent) auto

text \<open>
  C9. A word with surface text \<open>Cats\<close>, tag \<open>NNS\<close> and lemma \<open>cat\<close>, under a tagset
  that gives the tag \<open>NNS\<close> the suffix \<open>-n\<close>, formats to exactly the line
  \<open>Cats TAB NNS TAB cat-n NEWLINE\<close>, and the sentence of that word to the start marker
  line, that line and the end marker line. Every formatted sentence is the start marker
  line, one line per word, and the end marker line. (The formatting is a function of the
  word and the tagset.)
\<close>

theorem make_sentence_format:
  assumes "w_text w = ''Cats''" and "w_xpos w = ''NNS''" and "w_lemma w = Some ''cat''"
    and "fl w = ''cat''" and "ts ''NNS'' = Some entry" and "entry ''lpos'' = Some ''-n''"
  shows "make_line fl ts w = Inr (''Cats'' @ TAB @ ''NNS'' @ TAB @ ''cat-n'' @ NL)
    \<and> make_sentence fl ts ids [w] x lg =
        Inr (''<s>'' @ NL @ (''Cats'' @ TAB @ ''NNS'' @ TAB @ ''cat-n'' @ NL) @ ''</s>'' @ NL, lg)
    \<and> (\<forall>fl' ts' ids' sent x' lg1 s lg2.
          make_sentence fl' ts' ids' sent x' lg1 = Inr (s, lg2) \<longrightarrow>
            (\<exists>lines. make_lines fl' ts' sent = Inr lines \<and> length lines = length sent
               \<and> s = (''<s>'' @ NL) @ concat lines @ (''</s>'' @ NL)))"
proof -
  have line: "make_line fl ts w = Inr (''Cats'' @ TAB @ ''NNS'' @ TAB @ ''cat-n'' @ NL)"
    using assms by (simp add: make_line_def)
  have sent: "make_sentence fl ts ids [w] x lg =
        Inr (''<s>'' @ NL @ (''Cats'' @ TAB @ ''NNS'' @ TAB @ ''cat-n'' @ NL) @ ''</s>'' @ NL, lg)"
    using assms(3) line by (simp add: make_sentence_def)
  have wrap: "\<exists>lines. make_lines fl' ts' sent = Inr lines \<and> length lines = length sent
               \<and> s = (''<s>'' @ NL) @ concat lines @ (''</s>'' @ NL)"
    if "make_sentence fl' ts' ids' sent x' lg1 = Inr (s, lg2)" for fl' ts' ids' sent x' lg1 s lg2
    using that by (auto simp: make_sentence_def make_lines_length split: sum.splits)
  from line sent wrap show ?thesis by blast
qed

theorem make_sentence_format_witness:
  "make_line ex_fix_lemma ex_tagset ex_word = Inr (''Cats'' @ TAB @ ''NNS'' @ TAB @ ''cat-n'' @ NL)
   \<and> make_sentence ex_fix_lemma ex_tagset [PyInt 7] [ex_word] 0 [] =
        Inr (''<s>'' @ NL @ (''Cats'' @ TAB @ ''NNS'' @ TAB @ ''cat-n'' @ NL) @ ''</s>'' @ NL, [])"
proof -
  have h: "w_text ex_word = ''Cats''" "w_xpos ex_word = ''NNS''" "w_lemma ex_word = Some ''cat''"
    "ex_fix_lemma ex_word = ''cat''" "ex_tagset ''NNS'' = Some [''lpos'' \<mapsto> ''-n'']"
    "[''lpos'' \<mapsto> ''-n''] ''lpos'' = Some ''-n''"
    by (simp_all add: ex_word_def ex_fix_lemma_def ex_tagset_def)
  from make_sentence_format[where w = ex_word and fl = ex_fix_lemma and ts = ex_tagset
      and entry = "[''lpos'' \<mapsto> ''-n'']" and ids = "[PyInt 7]" and x = 0 and lg = "[]"] h
  show ?thesis by blast
qed

subsection \<open>Empty documents\<close>








section \<open>Properties of the crawler\<close>

subsection \<open>Notions used in the statements\<close>

text \<open>
  A run to try the statements on: a service that answers the first request with two
  records and every later one with none, a database with empty tables \<open>_raw\<close>,
  \<open>_log\<close> and \<open>_pdf\<close>, and a fresh job on them, sorted by \<open>date.changed\<close>.
\<close>

definition ex_vp :: vparams where
  "ex_vp = \<lparr>nan_like = ex_nl, fix_lemma = ex_fix_lemma,
            stanza_run = (\<lambda>texts ids. \<lparr>b_id = ids, b_doc = [], b_token = 0\<rparr>),
            docbundle_to_df = (\<lambda>b. \<lparr>columns = [''id'', ''vert_date'', ''vert''], rows = []\<rparr>),
            batch_window = (\<lambda>run sz. (run * sz, sz)),
            limit_runs = (\<lambda>run runs. runs = 0 \<or> run < runs),
            json_changed = (\<lambda>s. Some (Some s)),
            timestamp = (\<lambda>s. Some (int (length s)))\<rparr>"

definition ex_item :: "string \<Rightarrow> string \<Rightarrow> item" where
  "ex_item i t = [(''id'', Leaf (PyStr i)), (''fields'', Nested [(''id'', PyStr i), (''title'', PyStr t)])]"

definition two_records :: "string \<Rightarrow> string \<Rightarrow> string \<Rightarrow> string \<Rightarrow> page" where
  "two_records i1 t1 i2 t2 = \<lparr>p_count = 2, p_total = 2, p_data = [ex_item i1 t1, ex_item i2 t2]\<rparr>"

definition no_records :: page where
  "no_records = \<lparr>p_count = 0, p_total = 2, p_data = []\<rparr>"

definition ex_server :: "nat \<Rightarrow> parameters \<Rightarrow> page \<times> string" where
  "ex_server k p = (if k = 0 then (two_records ''101'' ''a'' ''102'' ''b'', ''t0'') else (no_records, ''t1''))"

definition ex_C :: cparams where
  "ex_C = \<lparr>server = ex_server,
           hashf = (\<lambda>p. case p_offset p of None \<Rightarrow> ''h'' | Some off \<Rightarrow> (if off = 0 then ''h0'' else ''h1'')),
           render = (\<lambda>p. ''{}''), pdf_flat = (\<lambda>df. None), vp = ex_vp\<rparr>"

definition ex_crawl_db :: database where
  "ex_crawl_db =
     \<lparr>tables = [''_raw'' \<mapsto> [''api_params_hash'', ''id'', ''api_input'', ''api_date'', ''title'', ''date'', ''file''],
                ''_log'' \<mapsto> [''api_params_hash'', ''api_params'', ''api_input'', ''api_date'', ''count'', ''total_count''],
                ''_pdf'' \<mapsto> [''id'', ''file_id'', ''url'']],
      pkey = [''_raw'' \<mapsto> ''id'', ''_log'' \<mapsto> ''api_params_hash'', ''_pdf'' \<mapsto> ''file_id''],
      contents = (\<lambda>t. [])\<rparr>"

definition ex_parameters :: parameters where
  "ex_parameters = \<lparr>p_offset = None, p_sort = Some [''date.changed:asc''], p_filter = None, p_other = [(''limit'', ''2'')]\<rparr>"

definition ex_job :: job where
  "ex_job = \<lparr>parameters = ex_parameters, original_parameters = ex_parameters, call_n = None, limit = None,
             response_json = None, job_db = Some ex_crawl_db, raw = Map.empty, field_names = {},
             hash = [], now = [], input_name = ''input.yml'',
             df_raw = \<lparr>columns = [], rows = []\<rparr>, df_log = \<lparr>columns = [], rows = []\<rparr>,
             date_changed_vals = [], wait_dict = [(0, Some 1), (5, Some 49), (10, Some 99), (20, Some 499), (30, None)],
             calls = []\<rparr>"



definition ex_job_desc :: job where
  "ex_job_desc = ex_job\<lparr>parameters := ex_parameters\<lparr>p_sort := Some [''date.changed:desc'']\<rparr>\<rparr>"

subsection \<open>Exceptions of a run\<close>


lemma collect_Inr: "collect xs = Inr vs \<Longrightarrow> xs = map Inr vs"
  by (induction xs arbitrary: vs) (auto split: sum.splits)

lemma collect_Inl: "collect xs = Inl e \<Longrightarrow> Inl e \<in> set xs"
  by (induction xs) (auto split: sum.splits)

lemma executemany_error: "executemany n kf recs tbl = Inl e \<Longrightarrow> e = ProgrammingError"
  by (induction recs arbitrary: tbl) (auto split: if_splits)

lemma db_insert_error: "db_insert nl df t d = Inl e \<Longrightarrow> e = ProgrammingError \<or> (\<exists>k. e = KeyError k)"
  by (auto simp: db_insert_def Let_def getitem_cols_def split: option.splits sum.splits list.splits
      dest: executemany_error)

lemma add_missing_columns_error: "add_missing_columns df t d = Inl e \<Longrightarrow> (\<exists>k. e = KeyError k)"
  by (auto simp: add_missing_columns_def Let_def split: option.splits)

lemma rw_insert_log_error: "rw_insert_log C self = (Inl e, self') \<Longrightarrow> e \<noteq> ValueError m"
  by (auto simp: rw_insert_log_def Let_def split: option.splits sum.splits dest!: db_insert_error)

lemma rw_insert_pdf_error: "rw_insert_pdf C self = (Inl e, self') \<Longrightarrow> e \<noteq> ValueError m"
  by (auto simp: rw_insert_pdf_def Let_def split: option.splits sum.splits if_splits prod.splits
      dest!: db_insert_error add_missing_columns_error)

lemma rw_insert_error: "rw_insert C self = (Inl e, self') \<Longrightarrow> e \<noteq> ValueError m"
  by (auto simp: rw_insert_def Let_def split: option.splits sum.splits if_splits prod.splits
      dest!: db_insert_error add_missing_columns_error rw_insert_log_error[where m = m] rw_insert_pdf_error[where m = m])

lemma item_field_names_error: "item_field_names xs = Inl e \<Longrightarrow> e \<noteq> ValueError m"
  by (induction xs) (auto split: option.splits jentry.splits sum.splits)

lemma one_body_error: "one_body C self = (Inl e, self') \<Longrightarrow> e \<noteq> ValueError m"
  by (auto simp: one_body_def Let_def rw_enforce_quota_def rw_offset_def rw_get_field_names_def
      split: option.splits sum.splits if_splits prod.splits
      dest!: rw_insert_error[where m = m] item_field_names_error[where m = m])

lemma one_error: "one C self = (Inl e, self') \<Longrightarrow> e \<noteq> ValueError m"
proof (induction C self rule: one.induct)
  case (1 C self)
  show ?case
  proof (cases "one_body C self")
    case (Pair x y)
    show ?thesis
    proof (cases x)
      case (Inl e')
      with Pair "1.prems" have "e' = e" by (subst (asm) one.simps) simp
      with Pair Inl show ?thesis using one_body_error[of C self e y m] by simp
    next
      case (Inr go)
      show ?thesis
      proof (cases go)
        case True
        with Pair Inr "1.prems" have "one C y = (Inl e, self')" by (subst (asm) one.simps) simp
        with "1.IH"[OF Pair[symmetric] Inr True] show ?thesis .
      next
        case False
        with Pair Inr "1.prems" show ?thesis by (subst (asm) one.simps) simp
      qed
    qed
  qed
qed

lemma sort_message_neq: "ValueError sort_message \<noteq> ParserError s" "ValueError sort_message \<noteq> OperationalError"
  by simp_all

lemma select_date_changed_error: "select_date_changed P d = Inl e \<Longrightarrow> e \<noteq> ValueError m"
  by (auto simp: select_date_changed_def sql_changed_def to_timestamp_def
      split: option.splits sum.splits if_splits dest!: collect_Inl)

text \<open>
  C7. Starting an incremental run raises the configuration error (\<open>ValueError\<close> with
  the message about the sort) if and only if the sort of the parameters is not
  \<open>["date.changed:asc"]\<close>. The error is raised at once: the job is left as it was but for
  the offset that \<open>new\<close> sets first, so no request has been issued, nothing has been
  written and nothing is tried again.
\<close>

theorem new_sort_error:
  "(fst (rw_new C lim self) = Inl (ValueError sort_message)) = (p_sort (parameters self) \<noteq> Some [''date.changed:asc''])
   \<and> (p_sort (parameters self) \<noteq> Some [''date.changed:asc''] \<longrightarrow>
        rw_new C lim self = (Inl (ValueError sort_message), self\<lparr>parameters := (parameters self)\<lparr>p_offset := Some 0\<rparr>\<rparr>))"
proof -
  have bad: "rw_new C lim self = (Inl (ValueError sort_message), self\<lparr>parameters := (parameters self)\<lparr>p_offset := Some 0\<rparr>\<rparr>)"
    if "p_sort (parameters self) \<noteq> Some [''date.changed:asc'']"
    using that by (simp add: rw_new_def Let_def)
  have good: "fst (rw_new C lim self) \<noteq> Inl (ValueError sort_message)"
    if s: "p_sort (parameters self) = Some [''date.changed:asc'']"
  proof
    assume a: "fst (rw_new C lim self) = Inl (ValueError sort_message)"
    then obtain self' where r: "rw_new C lim self = (Inl (ValueError sort_message), self')"
      by (cases "rw_new C lim self") simp
    from r s show False
      by (auto simp: rw_new_def Let_def rw_all_def split: option.splits sum.splits
          dest: select_date_changed_error one_error)
  qed
  from bad good show ?thesis by auto
qed


theorem new_sort_error_witness:
  "rw_new ex_C 1000 ex_job_desc =
     (Inl (ValueError sort_message), ex_job_desc\<lparr>parameters := (parameters ex_job_desc)\<lparr>p_offset := Some 0\<rparr>\<rparr>)
   \<and> calls (snd (rw_new ex_C 1000 ex_job_desc)) = []
   \<and> fst (rw_new ex_C 1000 ex_job) \<noteq> Inl (ValueError sort_message)"
proof -
  have bad: "p_sort (parameters ex_job_desc) \<noteq> Some [''date.changed:asc'']"
    by (simp add: ex_job_desc_def ex_job_def ex_parameters_def)
  have good: "p_sort (parameters ex_job) = Some [''date.changed:asc'']"
    by (simp add: ex_job_def ex_parameters_def)
  have c: "calls ex_job_desc = []"
    by (simp add: ex_job_desc_def ex_job_def)
  from new_sort_error[of ex_C 1000 ex_job_desc] bad
  have 1: "rw_new ex_C 1000 ex_job_desc =
     (Inl (ValueError sort_message), ex_job_desc\<lparr>parameters := (parameters ex_job_desc)\<lparr>p_offset := Some 0\<rparr>\<rparr>)"
    by blast
  from new_sort_error[of ex_C 1000 ex_job] good
  have 2: "fst (rw_new ex_C 1000 ex_job) \<noteq> Inl (ValueError sort_message)"
    by blast
  from 1 2 c show ?thesis by simp
qed


subsection \<open>The filter of an incremental run\<close>













subsection \<open>An empty response\<close>

lemma rows_set_col_empty: "rows df = [] \<Longrightarrow> rows (set_col df c v) = []"
  by (simp add: set_col_def)

lemma rows_foldl_set_col_empty: "rows df = [] \<Longrightarrow> rows (foldl (\<lambda>f c. set_col f c v) df cs) = []"
  by (induction cs arbitrary: df) (simp_all add: rows_set_col_empty)

lemma json_normalize_Nil: "json_normalize [] = \<lparr>columns = [], rows = []\<rparr>"
  by (simp add: json_normalize_def first_seen_def)

lemma rw_insert_no_data:
  assumes d: "job_db self = Some d" and t: "tables d ''_raw'' = Some cols"
    and r: "response_json self = Some resp" and e: "p_data resp = []"
  shows "\<exists>self' d'. rw_insert C self = (Inl (UserWarning no_more_results), self') \<and>
           job_db self' = Some d' \<and> (\<forall>t. length (contents d' t) = length (contents d t)) \<and>
           calls self' = calls self \<and> parameters self' = parameters self"
  using assms
  by (simp add: rw_insert_def rw_reshape_def json_normalize_Nil Let_def add_missing_columns_def drop_col_def
      empty_df_def rows_foldl_set_col_empty rows_set_col_empty)

lemma one_raise: "one_body C self = (Inl e, self') \<Longrightarrow> one C self = (Inl e, self')"
  by (subst one.simps) simp


lemma one_continue: "one_body C self = (Inr True, self') \<Longrightarrow> one C self = one C self'"
  by (subst one.simps) simp

subsection \<open>A response of two records\<close>

lemma replace_fields_id: "replace_str ''fields_'' [] ''id'' = ''id''"
  by (simp add: replace_str.simps)

lemma replace_fields_title: "replace_str ''fields_'' [] ''fields_title'' = ''title''"
  by (simp add: replace_str.simps)

lemma two_records_frame: "json_normalize (p_data (two_records i1 t1 i2 t2)) =
   \<lparr>columns = [''id'', ''fields_id'', ''fields_title''],
    rows = [[PyStr i1, PyStr i1, PyStr t1], [PyStr i2, PyStr i2, PyStr t2]]\<rparr>"
  by (simp add: json_normalize_def two_records_def ex_item_def flatten_item_def first_seen_def)

lemma ex_crawl_db_sel:
  "tables ex_crawl_db ''_raw'' = Some [''api_params_hash'', ''id'', ''api_input'', ''api_date'', ''title'', ''date'', ''file'']"
  "tables ex_crawl_db ''_log'' = Some [''api_params_hash'', ''api_params'', ''api_input'', ''api_date'', ''count'', ''total_count'']"
  "pkey ex_crawl_db ''_raw'' = Some ''id''" "pkey ex_crawl_db ''_log'' = Some ''api_params_hash''"
  "contents ex_crawl_db t = []"
  by (simp_all add: ex_crawl_db_def)

lemma reshape_two_records:
  "rw_reshape self (two_records i1 t1 i2 t2) =
     \<lparr>columns = [''id'', ''title'', ''api_input'', ''api_date'', ''api_params_hash''],
      rows = [[PyStr i1, PyStr t1, PyStr (input_name self), PyStr (now self), PyStr (hash self)],
              [PyStr i2, PyStr t2, PyStr (input_name self), PyStr (now self), PyStr (hash self)]]\<rparr>"
proof -
  let ?F1 = "\<lparr>columns = [''id'', ''fields_title''], rows = [[PyStr i1, PyStr t1], [PyStr i2, PyStr t2]]\<rparr>"
  let ?F3 = "\<lparr>columns = [''id'', ''title''], rows = [[PyStr i1, PyStr t1], [PyStr i2, PyStr t2]]\<rparr>"
  let ?F4 = "\<lparr>columns = [''id'', ''title'', ''api_input''],
      rows = [[PyStr i1, PyStr t1, PyStr (input_name self)], [PyStr i2, PyStr t2, PyStr (input_name self)]]\<rparr>"
  let ?F5 = "\<lparr>columns = [''id'', ''title'', ''api_input'', ''api_date''],
      rows = [[PyStr i1, PyStr t1, PyStr (input_name self), PyStr (now self)],
              [PyStr i2, PyStr t2, PyStr (input_name self), PyStr (now self)]]\<rparr>"
  have 1: "drop_col (json_normalize (p_data (two_records i1 t1 i2 t2))) ''fields_id'' = ?F1"
    by (simp add: two_records_frame drop_col_def)
  have 2: "?F1\<lparr>columns := map (replace_str ''fields_'' []) (columns ?F1)\<rparr> = ?F3"
    by (simp add: replace_fields_id replace_fields_title)
  have 3: "?F3\<lparr>columns := map (\<lambda>col. if CHR ''-'' \<in> set col then replace_str ''-'' ''_'' col else col) (columns ?F3)\<rparr> = ?F3"
    by simp
  have 4: "set_col ?F3 ''api_input'' (PyStr (input_name self)) = ?F4"
    by (simp add: set_col_def)
  have 5: "set_col ?F4 ''api_date'' (PyStr (now self)) = ?F5"
    by (simp add: set_col_def)
  have 6: "set_col ?F5 ''api_params_hash'' (PyStr (hash self)) =
     \<lparr>columns = [''id'', ''title'', ''api_input'', ''api_date'', ''api_params_hash''],
      rows = [[PyStr i1, PyStr t1, PyStr (input_name self), PyStr (now self), PyStr (hash self)],
              [PyStr i2, PyStr t2, PyStr (input_name self), PyStr (now self), PyStr (hash self)]]\<rparr>"
    by (simp add: set_col_def)
  show ?thesis
    unfolding rw_reshape_def Let_def 1 2 3 4 5 6 ..
qed


lemma two_records_sel: "p_count (two_records i1 t1 i2 t2) = 2" "p_total (two_records i1 t1 i2 t2) = 2"
  by (simp_all add: two_records_def)

lemma two_records_fields: "item_field_names (p_data (two_records i1 t1 i2 t2)) = Inr {''id'', ''title''}"
  by (auto simp: two_records_def ex_item_def)

lemma upsert_two:
  "kf r1 \<noteq> kf r2 \<or> kf r2 = None \<Longrightarrow> upsert_all kf [] [r1, r2] = [r1, r2]"
  by (auto simp: upsert_all_def insert_or_replace_def split: option.splits)

lemma upsert_one: "upsert_all kf [] [r] = [r]"
  by (auto simp: upsert_all_def insert_or_replace_def split: option.splits)

lemma ex_add_missing:
  "add_missing_columns
     \<lparr>columns = [''id'', ''title'', ''api_input'', ''api_date'', ''api_params_hash''],
      rows = [[a1, b1, c1, d1, e1], [a2, b2, c2, d2, e2]]\<rparr> ''_raw'' ex_crawl_db =
   Inr (\<lparr>columns = [''id'', ''title'', ''api_input'', ''api_date'', ''api_params_hash'', ''date'', ''file''],
         rows = [[a1, b1, c1, d1, e1, PyNone, PyNone], [a2, b2, c2, d2, e2, PyNone, PyNone]]\<rparr>,
        ex_crawl_db\<lparr>tables := (tables ex_crawl_db)(''_raw'' \<mapsto> [''api_params_hash'', ''id'', ''api_input'', ''api_date'', ''title'', ''date'', ''file'']),
                     contents := (contents ex_crawl_db)(''_raw'' := [])\<rparr>)"
  by (simp add: add_missing_columns_def ex_crawl_db_def first_seen_def set_col_def Let_def)

lemma nan_to_none_cell_neq:
  "i1 \<noteq> i2 \<Longrightarrow> nan_to_none_cell nl i1 \<noteq> nan_to_none_cell nl i2 \<or> nan_to_none_cell nl i2 = None"
  by (simp add: nan_to_none_cell_def)

lemma rw_insert_two_records:
  assumes r: "response_json self = Some (two_records i1 t1 i2 t2)"
    and d: "job_db self = Some ex_crawl_db" and ne: "i1 \<noteq> i2"
  shows "\<exists>self' d'. rw_insert C self = (Inr (), self') \<and> job_db self' = Some d' \<and>
      tables d' ''_raw'' = tables ex_crawl_db ''_raw'' \<and>
      length (contents d' ''_raw'') = 2 \<and> length (contents d' ''_log'') = 1 \<and> contents d' ''_pdf'' = []"
proof -
  define nl where "nl = nan_like (vp C)"
  define rcols where "rcols = [''api_params_hash'', ''id'', ''api_input'', ''api_date'', ''title'', ''date'', ''file'']"
  define lcols where "lcols = [''api_params_hash'', ''api_params'', ''api_input'', ''api_date'', ''count'', ''total_count'']"
  define F7 :: dataframe where "F7 = \<lparr>columns = [''id'', ''title'', ''api_input'', ''api_date'', ''api_params_hash'', ''date'', ''file''],
         rows = [[PyStr i1, PyStr t1, PyStr (input_name self), PyStr (now self), PyStr (hash self), PyNone, PyNone],
                 [PyStr i2, PyStr t2, PyStr (input_name self), PyStr (now self), PyStr (hash self), PyNone, PyNone]]\<rparr>"
  define D1 where "D1 = ex_crawl_db\<lparr>tables := (tables ex_crawl_db)(''_raw'' \<mapsto> rcols),
                     contents := (contents ex_crawl_db)(''_raw'' := [])\<rparr>"
  have amc: "add_missing_columns (rw_reshape self (two_records i1 t1 i2 t2)) ''_raw'' ex_crawl_db = Inr (F7, D1)"
    unfolding reshape_two_records ex_add_missing F7_def D1_def rcols_def ..
  have D1: "tables D1 ''_raw'' = Some rcols" "tables D1 ''_log'' = Some lcols" "pkey D1 ''_raw'' = Some ''id''"
    "pkey D1 ''_log'' = Some ''api_params_hash''" "contents D1 ''_raw'' = []" "contents D1 ''_log'' = []"
    "contents D1 ''_pdf'' = []"
    by (simp_all add: D1_def ex_crawl_db_def rcols_def lcols_def)
  define r1 where "r1 = [nan_to_none_cell nl (hash self), nan_to_none_cell nl i1, nan_to_none_cell nl (input_name self),
      nan_to_none_cell nl (now self), nan_to_none_cell nl t1, nan_to_none_cell nl ''None'', nan_to_none_cell nl ''None'']"
  define r2 where "r2 = [nan_to_none_cell nl (hash self), nan_to_none_cell nl i2, nan_to_none_cell nl (input_name self),
      nan_to_none_cell nl (now self), nan_to_none_cell nl t2, nan_to_none_cell nl ''None'', nan_to_none_cell nl ''None'']"
  have recs: "stored_records nl F7 rcols = [r1, r2]"
    by (simp add: stored_records_def F7_def rcols_def select_row_def r1_def r2_def)
  have sub: "set rcols \<subseteq> set (columns F7)"
    by (auto simp: rcols_def F7_def)
  have len: "\<forall>r\<in>set (stored_records nl F7 rcols). length r = length rcols"
    unfolding recs by (simp add: r1_def r2_def rcols_def)
  have keys: "table_key D1 ''_raw'' r1 = nan_to_none_cell nl i1" "table_key D1 ''_raw'' r2 = nan_to_none_cell nl i2"
    by (simp_all add: table_key_def D1 key_of_def rcols_def r1_def r2_def)
  define D2 where "D2 = D1\<lparr>contents := (contents D1)(''_raw'' := [r1, r2])\<rparr>"
  have ins: "db_insert nl F7 ''_raw'' D1 = Inr D2"
    using db_insert_ok[OF D1(1) sub len] upsert_two[of "table_key D1 ''_raw''" r1 r2] keys
      nan_to_none_cell_neq[OF ne, of nl]
    by (simp add: recs D1 D2_def)
  have D2: "tables D2 ''_raw'' = Some rcols" "tables D2 ''_log'' = Some lcols"
    "contents D2 ''_raw'' = [r1, r2]" "contents D2 ''_log'' = []" "contents D2 ''_pdf'' = []"
    by (simp_all add: D2_def D1)
  define self2 where "self2 = self\<lparr>job_db := Some D1, df_raw := F7\<rparr>\<lparr>job_db := Some D2\<rparr>"
  define LF :: dataframe where "LF = \<lparr>columns = lcols,
                     rows = [[PyStr (hash self), PyObj (render C (parameters self)), PyStr (input_name self),
                              PyStr (now self), PyInt 2, PyInt 2]]\<rparr>"
  have lrecs: "\<exists>r. stored_records nl LF lcols = [r] \<and> length r = 6"
    by (simp add: stored_records_def LF_def lcols_def select_row_def)
  then obtain lr where lr: "stored_records nl LF lcols = [lr]" "length lr = 6" by blast
  define D3 where "D3 = D2\<lparr>contents := (contents D2)(''_log'' := [lr])\<rparr>"
  have lins: "db_insert nl LF ''_log'' D2 = Inr D3"
    using db_insert_ok[OF D2(2), of LF nl] lr upsert_one[of "table_key D2 ''_log''" lr]
    by (simp add: D2 D3_def LF_def lcols_def)
  have D3: "tables D3 ''_raw'' = Some rcols" "contents D3 ''_raw'' = [r1, r2]" "contents D3 ''_log'' = [lr]"
    "contents D3 ''_pdf'' = []"
    by (simp_all add: D3_def D2)
  define self3 where "self3 = self2\<lparr>df_log := LF\<rparr>\<lparr>job_db := Some D3\<rparr>"
  have log: "rw_insert_log C self2 = (Inr (), self3)"
    using r lins[unfolded LF_def lcols_def]
    by (simp add: rw_insert_log_def Let_def self2_def self3_def two_records_sel LF_def nl_def[symmetric] lcols_def)
  have pdf: "rw_insert_pdf C self3 = (Inr (), self3)"
    by (simp add: rw_insert_pdf_def Let_def self3_def self2_def F7_def cell_def empty_df_def)
  have ne7: "\<not> empty_df F7"
    by (simp add: empty_df_def F7_def)
  have "rw_insert C self = (Inr (), self3)"
    using r d amc ins log pdf ne7
    by (simp add: rw_insert_def Let_def nl_def[symmetric] self2_def[symmetric])
  moreover have "job_db self3 = Some D3"
    by (simp add: self3_def)
  ultimately show ?thesis
    using D3 by (auto simp: ex_crawl_db_sel rcols_def)
qed


subsection \<open>One call\<close>

text \<open>The result counts of the pages received, oldest first.\<close>

definition counts :: "job \<Rightarrow> int list" where
  "counts self = map (\<lambda>c. p_count (snd c)) (calls self)"


text \<open>The job when the request of a call is issued: the offset has been advanced.\<close>

definition advanced :: "job \<Rightarrow> job" where
  "advanced self =
     (case (call_n self, p_offset (parameters self), response_json self) of
        (Some (Suc m), Some off, Some resp) \<Rightarrow>
           self\<lparr>parameters := (parameters self)\<lparr>p_offset := Some (off + p_count resp)\<rparr>\<rparr>
      | _ \<Rightarrow> self)"

lemma rw_offset_ok:
  assumes "call_n self = Some n"
    and "n > 0 \<longrightarrow> p_offset (parameters self) \<noteq> None \<and> (\<exists>resp. response_json self = Some resp \<and> p_count resp \<noteq> 0)"
  shows "rw_offset self = (Inr (), advanced self)"
  using assms by (cases n) (auto simp: rw_offset_def advanced_def Let_def)


text \<open>The job when \<open>insert\<close> or the store in \<open>raw\<close> is reached, after the request.\<close>

definition requested :: "cparams \<Rightarrow> job \<Rightarrow> job" where
  "requested C self =
     (let s3 = rw_request C (advanced self) in
      rw_hash C (s3\<lparr>field_names := (case item_field_names (p_data (fst (server C (length (calls self)) (parameters (advanced self))))) of
                                       Inl e \<Rightarrow> {} | Inr ns \<Rightarrow> ns)\<rparr>))"

lemma requested_sel:
  "job_db (requested C self) = job_db self"
  "call_n (requested C self) = call_n self"
  "limit (requested C self) = limit self"
  "wait_dict (requested C self) = wait_dict self"
  "parameters (requested C self) = parameters (advanced self)"
  "response_json (requested C self) = Some (fst (server C (length (calls self)) (parameters (advanced self))))"
  "calls (requested C self) = calls self @ [(parameters (advanced self), fst (server C (length (calls self)) (parameters (advanced self))))]"
  by (auto simp: requested_def rw_request_def rw_hash_def advanced_def Let_def
      split: prod.splits option.splits nat.splits)

lemma one_body_to_store:
  assumes n: "call_n self = Some n" and l: "limit self = Some l" and go: "int n < l"
    and q: "bucket (wait_dict self) n \<noteq> Some None"
    and prev: "n > 0 \<longrightarrow> p_offset (parameters self) \<noteq> None \<and> (\<exists>resp. response_json self = Some resp \<and> p_count resp \<noteq> 0)"
    and f: "item_field_names (p_data (fst (server C (length (calls self)) (parameters (advanced self))))) = Inr ns"
  shows "one_body C self =
     (case (if job_db (requested C self) = None
            then (Inr (), (requested C self)\<lparr>raw := (raw (requested C self))(n \<mapsto>
                     fst (server C (length (calls self)) (parameters (advanced self))))\<rparr>)
            else rw_insert C (requested C self)) of
        (Inl e, self6) \<Rightarrow> (Inl e, self6)
      | (Inr u, self6) \<Rightarrow>
          (case call_n self6 of
             None \<Rightarrow> (Inl AttributeError, self6)
           | Some m \<Rightarrow> (Inr True, self6\<lparr>call_n := Some (m + 1)\<rparr>)))"
proof -
  have norm: "self\<lparr>call_n := Some n, limit := Some l\<rparr> = self"
    using n l by simp
  obtain resp tm where sv: "server C (length (calls self)) (parameters (advanced self)) = (resp, tm)"
    by (cases "server C (length (calls self)) (parameters (advanced self))")
  have ca: "calls (advanced self) = calls self"
    by (auto simp: advanced_def split: option.splits nat.splits)
  have r3: "rw_request C (advanced self) =
      (advanced self)\<lparr>response_json := Some resp, now := tm, calls := calls self @ [(parameters (advanced self), resp)]\<rparr>"
    using sv by (simp add: rw_request_def ca)
  have g: "rw_get_field_names (rw_request C (advanced self)) = (Inr (), (rw_request C (advanced self))\<lparr>field_names := ns\<rparr>)"
    using f sv by (simp add: rw_get_field_names_def r3)
  have rq: "requested C self = rw_hash C ((rw_request C (advanced self))\<lparr>field_names := ns\<rparr>)"
    using f by (simp add: requested_def Let_def)
  have rj: "response_json (requested C self) = Some resp"
    using sv by (simp add: requested_sel)
  show ?thesis
    using n l go q rw_offset_ok[OF n prev] g rj sv
    apply (simp add: one_body_def norm rw_enforce_quota_def rq[symmetric] del: One_nat_def)
    apply (simp add: Let_def del: One_nat_def)
    done
qed


lemma offset_same: "p_offset p = Some off \<Longrightarrow> p\<lparr>p_offset := Some off\<rparr> = p"
  by simp



subsection \<open>The offset along a run\<close>









subsection \<open>The end of the results\<close>




lemma one_body_insert_raise:
  assumes d: "job_db self = Some d" and t: "tables d ''_raw'' = Some cols"
    and n: "call_n self = Some n" and l: "limit self = Some l" and go: "int n < l"
    and q: "bucket (wait_dict self) n \<noteq> Some None"
    and prev: "n > 0 \<longrightarrow> p_offset (parameters self) \<noteq> None \<and> (\<exists>resp. response_json self = Some resp \<and> p_count resp \<noteq> 0)"
    and page: "p_data (fst (server C (length (calls self)) (parameters (advanced self)))) = []"
  shows "\<exists>self' d'. one_body C self = (Inl (UserWarning no_more_results), self') \<and>
           job_db self' = Some d' \<and> (\<forall>t. length (contents d' t) = length (contents d t)) \<and>
           parameters self' = parameters (advanced self) \<and>
           calls self' = calls self @ [(parameters (advanced self),
                                          fst (server C (length (calls self)) (parameters (advanced self))))]"
proof -
  have f: "item_field_names (p_data (fst (server C (length (calls self)) (parameters (advanced self))))) = Inr {}"
    using page by simp
  have rd: "job_db (requested C self) = Some d"
    using d by (simp add: requested_sel)
  have rr: "response_json (requested C self) = Some (fst (server C (length (calls self)) (parameters (advanced self))))"
    by (simp add: requested_sel)
  from rw_insert_no_data[OF rd t rr page, of C] obtain self' d' where
    ins: "rw_insert C (requested C self) = (Inl (UserWarning no_more_results), self')" and
    d': "job_db self' = Some d'" "\<forall>t. length (contents d' t) = length (contents d t)" and
    c': "calls self' = calls (requested C self)" "parameters self' = parameters (requested C self)"
    by blast
  have "one_body C self = (Inl (UserWarning no_more_results), self')"
    using one_body_to_store[OF n l go q prev f] rd ins by simp
  with d' c' show ?thesis
    by (auto simp: requested_sel)
qed



lemma ex_bucket: "bucket (wait_dict ex_job) 0 \<noteq> Some None" "bucket (wait_dict ex_job) (Suc 0) \<noteq> Some None"
  by (simp_all add: bucket_def ex_job_def)

lemma select_date_changed_fresh: "select_date_changed P ex_crawl_db = Inr []"
  by (simp add: select_date_changed_def ex_crawl_db_def)

lemma new_fresh:
  assumes "job_db self = Some ex_crawl_db" "p_sort (parameters self) = Some [''date.changed:asc'']"
  shows "rw_new C lim self =
     one C (self\<lparr>parameters := (parameters self)\<lparr>p_offset := Some 0\<rparr>, date_changed_vals := [],
                 limit := Some lim, call_n := Some 0\<rparr>)"
  using assms
  by (simp add: rw_new_def Let_def select_date_changed_fresh rw_update_filter_def rw_all_def map_filter_simps)




subsection \<open>Runs of the example\<close>




lemma fresh_run:
  assumes d: "job_db self = Some ex_crawl_db"
    and sort: "p_sort (parameters self) = Some [''date.changed:asc'']"
    and c: "calls self = []"
    and q0: "bucket (wait_dict self) 0 \<noteq> Some None" and q1: "bucket (wait_dict self) (Suc 0) \<noteq> Some None"
    and p1: "\<forall>p. fst (server C 0 p) = two_records i1 t1 i2 t2"
    and p2: "\<forall>p. fst (server C (Suc 0) p) = no_records"
    and ne: "i1 \<noteq> i2" and lim: "2 \<le> lim"
  shows "\<exists>self' d'. rw_new C lim self = (Inl (UserWarning no_more_results), self') \<and>
      job_db self' = Some d' \<and> length (contents d' ''_raw'') = 2 \<and> length (contents d' ''_log'') = 1 \<and>
      length (calls self') = 2 \<and> counts self' = [2, 0] \<and> p_offset (parameters self') = Some 2"
proof -
  define j where "j = self\<lparr>parameters := (parameters self)\<lparr>p_offset := Some 0\<rparr>, date_changed_vals := [],
                 limit := Some lim, call_n := Some 0\<rparr>"
  have run: "rw_new C lim self = one C j"
    unfolding j_def by (rule new_fresh[OF d sort])
  have n: "call_n j = Some 0" and l: "limit j = Some lim" and go: "int 0 < lim"
    using lim by (simp_all add: j_def)
  have q: "bucket (wait_dict j) 0 \<noteq> Some None" using q0 by (simp add: j_def)
  have prev: "(0::nat) > 0 \<longrightarrow> p_offset (parameters j) \<noteq> None \<and> (\<exists>resp. response_json j = Some resp \<and> p_count resp \<noteq> 0)"
    by simp
  have cj: "calls j = []" using c by (simp add: j_def)
  have aj: "advanced j = j" by (simp add: advanced_def j_def)
  have sv: "fst (server C (length (calls j)) (parameters (advanced j))) = two_records i1 t1 i2 t2"
    using p1 by (simp add: cj)
  have f: "item_field_names (p_data (fst (server C (length (calls j)) (parameters (advanced j))))) = Inr {''id'', ''title''}"
    unfolding sv by (rule two_records_fields)
  have rq: "job_db (requested C j) = Some ex_crawl_db" "response_json (requested C j) = Some (two_records i1 t1 i2 t2)"
    using d sv by (simp_all add: requested_sel j_def)
  from rw_insert_two_records[OF rq(2) rq(1) ne, of C] obtain s6 d6 where
    ins: "rw_insert C (requested C j) = (Inr (), s6)" and d6: "job_db s6 = Some d6"
      "tables d6 ''_raw'' = tables ex_crawl_db ''_raw''"
      "length (contents d6 ''_raw'') = 2" "length (contents d6 ''_log'') = 1"
    by blast
  from rw_insert_frame[OF ins] have fr: "call_n s6 = Some 0" "limit s6 = Some lim"
    "parameters s6 = parameters j" "calls s6 = [(parameters j, two_records i1 t1 i2 t2)]"
    "response_json s6 = Some (two_records i1 t1 i2 t2)" "wait_dict s6 = wait_dict self"
    using sv by (simp_all add: requested_sel aj cj n l) (simp add: j_def)
  define j1 where "j1 = s6\<lparr>call_n := Some 1\<rparr>"
  have 1: "one_body C j = (Inr True, j1)"
    using one_body_to_store[OF n l go q prev f] rq(1) ins fr(1) by (simp add: j1_def)
  have d1: "job_db j1 = Some d6" using d6 by (simp add: j1_def)
  have t1: "tables d6 ''_raw'' = Some [''api_params_hash'', ''id'', ''api_input'', ''api_date'', ''title'', ''date'', ''file'']"
    using d6(2) by (simp add: ex_crawl_db_sel)
  have n1: "call_n j1 = Some (Suc 0)" and l1: "limit j1 = Some lim" and go1: "int (Suc 0) < lim"
    using lim fr by (simp_all add: j1_def)
  have q1': "bucket (wait_dict j1) (Suc 0) \<noteq> Some None" using q1 fr by (simp add: j1_def)
  have prev1: "Suc 0 > 0 \<longrightarrow> p_offset (parameters j1) \<noteq> None \<and> (\<exists>resp. response_json j1 = Some resp \<and> p_count resp \<noteq> 0)"
    using fr by (simp add: j1_def two_records_sel j_def)
  have c1: "calls j1 = [(parameters j, two_records i1 t1 i2 t2)]" using fr by (simp add: j1_def)
  have a1: "p_offset (parameters (advanced j1)) = Some 2"
    using fr by (simp add: advanced_def j1_def two_records_sel j_def)
  have page: "p_data (fst (server C (length (calls j1)) (parameters (advanced j1)))) = []"
    using p2 by (simp add: c1 no_records_def)
  from one_body_insert_raise[OF d1 t1 n1 l1 go1 q1' prev1 page] obtain self' d' where
    2: "one_body C j1 = (Inl (UserWarning no_more_results), self')" and
    e: "job_db self' = Some d'" "\<forall>t. length (contents d' t) = length (contents d6 t)"
      "parameters self' = parameters (advanced j1)"
      "calls self' = calls j1 @ [(parameters (advanced j1), fst (server C (length (calls j1)) (parameters (advanced j1))))]"
    by blast
  have "rw_new C lim self = (Inl (UserWarning no_more_results), self')"
    unfolding run using one_continue[OF 1] one_raise[OF 2] by simp
  moreover have "counts self' = [2, 0]"
    using e(4) p2 by (simp add: counts_def c1 two_records_sel no_records_def)
  ultimately show ?thesis
    using e d6 a1 c1 by auto
qed

text \<open>
  C5, as amended. In a fresh incremental run over the empty Storage of the example, of at
  least two calls, where the first page holds two records with different ids (count 2)
  and the second none (count 0): the run stores exactly 2 raw records, issues 2 requests
  and writes exactly one CallRecord, that of the first call (for the empty page
  \<open>insert\<close> raises before \<open>_insert_log\<close>), and ends by raising
  \<open>UserWarning("Call aborted: no more results.")\<close>, at offset 2.
\<close>

theorem fresh_incremental_run:
  assumes d: "job_db self = Some ex_crawl_db"
    and sort: "p_sort (parameters self) = Some [''date.changed:asc'']"
    and c: "calls self = []"
    and q0: "bucket (wait_dict self) 0 \<noteq> Some None" and q1: "bucket (wait_dict self) (Suc 0) \<noteq> Some None"
    and p1: "\<forall>p. fst (server C 0 p) = two_records i1 t1 i2 t2"
    and p2: "\<forall>p. fst (server C (Suc 0) p) = no_records"
    and ne: "i1 \<noteq> i2" and lim: "2 \<le> lim"
  shows "\<exists>self' d'. rw_new C lim self = (Inl (UserWarning no_more_results), self') \<and>
      job_db self' = Some d' \<and> length (contents d' ''_raw'') = 2 \<and> length (contents d' ''_log'') = 1 \<and>
      length (calls self') = 2 \<and> counts self' = [2, 0] \<and> p_offset (parameters self') = Some 2"
  by (rule fresh_run[OF assms])

lemma ex_fresh_run:
  "\<exists>self' d'. rw_new ex_C 1000 ex_job = (Inl (UserWarning no_more_results), self') \<and>
      job_db self' = Some d' \<and> length (contents d' ''_raw'') = 2 \<and> length (contents d' ''_log'') = 1 \<and>
      length (calls self') = 2 \<and> counts self' = [2, 0] \<and> p_offset (parameters self') = Some 2"
proof (rule fresh_run)
  show "job_db ex_job = Some ex_crawl_db" by (simp add: ex_job_def)
  show "p_sort (parameters ex_job) = Some [''date.changed:asc'']" by (simp add: ex_job_def ex_parameters_def)
  show "calls ex_job = []" by (simp add: ex_job_def)
  show "bucket (wait_dict ex_job) 0 \<noteq> Some None" "bucket (wait_dict ex_job) (Suc 0) \<noteq> Some None"
    by (rule ex_bucket)+
  show "\<forall>p. fst (server ex_C 0 p) = two_records ''101'' ''a'' ''102'' ''b''"
    by (simp add: ex_C_def ex_server_def)
  show "\<forall>p. fst (server ex_C (Suc 0) p) = no_records"
    by (simp add: ex_C_def ex_server_def)
  show "''101'' \<noteq> ''102''" by simp
  show "(2::int) \<le> 1000" by simp
qed

theorem fresh_incremental_run_witness:
  "\<exists>self' d'. rw_new ex_C 1000 ex_job = (Inl (UserWarning no_more_results), self') \<and>
      job_db self' = Some d' \<and> length (contents d' ''_raw'') = 2 \<and> length (contents d' ''_log'') = 1 \<and>
      length (calls self') = 2 \<and> counts self' = [2, 0] \<and> p_offset (parameters self') = Some 2"
proof (rule fresh_incremental_run)
  show "job_db ex_job = Some ex_crawl_db" by (simp add: ex_job_def)
  show "p_sort (parameters ex_job) = Some [''date.changed:asc'']" by (simp add: ex_job_def ex_parameters_def)
  show "calls ex_job = []" by (simp add: ex_job_def)
  show "bucket (wait_dict ex_job) 0 \<noteq> Some None" "bucket (wait_dict ex_job) (Suc 0) \<noteq> Some None"
    by (rule ex_bucket)+
  show "\<forall>p. fst (server ex_C 0 p) = two_records ''101'' ''a'' ''102'' ''b''"
    by (simp add: ex_C_def ex_server_def)
  show "\<forall>p. fst (server ex_C (Suc 0) p) = no_records"
    by (simp add: ex_C_def ex_server_def)
  show "''101'' \<noteq> ''102''" by simp
  show "(2::int) \<le> 1000" by simp
qed

text \<open>
  C5 as stated fails: in the run of the example the two calls leave one CallRecord, and
  the run ends with an exception.
\<close>

theorem fresh_run_one_call_record:
  "fst (rw_new ex_C 1000 ex_job) = Inl (UserWarning no_more_results)
   \<and> length (calls (snd (rw_new ex_C 1000 ex_job))) = 2
   \<and> (\<exists>d. job_db (snd (rw_new ex_C 1000 ex_job)) = Some d \<and> length (contents d ''_log'') = 1)"
  using ex_fresh_run by auto


section \<open>Properties of the staleness check\<close>

text \<open>
  The due set in the words of the specification: for the raw timestamps \<open>R\<close> and the
  annotation timestamps \<open>A\<close>, both as sets of pairs of an id and a timestamp, an id is
  due when it has no annotated document or when a raw timestamp of it is greater than an
  annotation timestamp of it.
\<close>

definition due_spec :: "(string option \<times> int option) set \<Rightarrow> (string option \<times> int option) set \<Rightarrow> string option \<Rightarrow> bool" where
  "due_spec R A i = (i \<notin> fst ` A \<or> (\<exists>x\<in>R. \<exists>y\<in>A. fst x = i \<and> fst y = i \<and> ts_gt (snd x) (snd y)))"

text \<open>
  What the database holds for \<open>R\<close> and \<open>A\<close>: the \<open>changed\<close> timestamp of the \<open>date\<close> of every
  raw record with an id, and the \<open>vert_date\<close> timestamp of every vertical document. A value
  that is no timestamp gives no pair.
\<close>

definition raw_time_of :: "vparams \<Rightarrow> string list \<Rightarrow> sqlrow \<Rightarrow> (string option \<times> int option) list" where
  "raw_time_of P rcols r =
     (case sql_cell rcols r ''id'' of
        None \<Rightarrow> []
      | Some i \<Rightarrow>
          (case sql_changed P (sql_cell rcols r ''date'') of
             Inl e \<Rightarrow> []
           | Inr ch \<Rightarrow> (case to_timestamp P ch of Inl e \<Rightarrow> [] | Inr t \<Rightarrow> [(Some i, t)])))"

definition raw_times :: "vparams \<Rightarrow> database \<Rightarrow> string list \<Rightarrow> (string option \<times> int option) list" where
  "raw_times P db rcols = concat (map (raw_time_of P rcols) (contents db ''_raw''))"

definition vert_time_of :: "vparams \<Rightarrow> string list \<Rightarrow> sqlrow \<Rightarrow> (string option \<times> int option) list" where
  "vert_time_of P vcols v =
     (case to_timestamp P (sql_cell vcols v ''vert_date'') of
        Inl e \<Rightarrow> []
      | Inr t \<Rightarrow> [(sql_cell vcols v ''id'', t)])"

definition vert_times :: "vparams \<Rightarrow> database \<Rightarrow> string list \<Rightarrow> (string option \<times> int option) list" where
  "vert_times P db vcols = concat (map (vert_time_of P vcols) (contents db ''_vert''))"

text \<open>
  A database of four raw records and three vertical documents; the timestamp of a text is
  its length. Document 1 is older than its record, document 2 is as old as its record,
  document 3 is younger, record 4 has no document.
\<close>

definition ex_vert_db :: database where
  "ex_vert_db =
     \<lparr>tables = [''_raw'' \<mapsto> [''api_params_hash'', ''id'', ''date'', ''body_html''],
                ''_vert'' \<mapsto> [''id'', ''vert_date'', ''vert'']],
      pkey = [''_raw'' \<mapsto> ''id'', ''_vert'' \<mapsto> ''id''],
      contents = (\<lambda>t. if t = ''_raw'' then
                         [[Some ''h'', Some ''1'', Some ''abc'', Some ''text''],
                          [Some ''h'', Some ''2'', Some ''ab'', Some ''text''],
                          [Some ''h'', Some ''3'', Some ''a'', Some ''text''],
                          [Some ''h'', Some ''4'', Some ''abcd'', Some ''text'']]
                       else if t = ''_vert'' then
                         [[Some ''1'', Some ''xy'', Some ''v''],
                          [Some ''2'', Some ''xy'', Some ''v''],
                          [Some ''3'', Some ''xyz'', Some ''v'']]
                       else [])\<rparr>"

lemma due_spec_iff:
  "due_spec R A i \<longleftrightarrow> (i \<notin> fst ` A \<or> (\<exists>r a. (i, r) \<in> R \<and> (i, a) \<in> A \<and> ts_gt r a))"
  unfolding due_spec_def by force

lemma collect_map_Inr:
  "collect (map f xs) = Inr ys \<Longrightarrow> ys = map (\<lambda>x. projr (f x)) xs \<and> (\<forall>x\<in>set xs. f x = Inr (projr (f x)))"
  by (induction xs arbitrary: ys) (auto split: sum.splits)

lemma raw_time_of_iff:
  "(i, t) \<in> set (raw_time_of P rcols r) \<longleftrightarrow>
     (\<exists>ch. i \<noteq> None \<and> sql_cell rcols r ''id'' = i \<and>
         sql_changed P (sql_cell rcols r ''date'') = Inr ch \<and> to_timestamp P ch = Inr t)"
  unfolding raw_time_of_def
  by (cases "sql_cell rcols r ''id''"; cases "sql_changed P (sql_cell rcols r ''date'')")
     (auto split: sum.splits)

lemma in_raw_times:
  "(i, t) \<in> set (raw_times P db rcols) \<longleftrightarrow>
     (\<exists>r\<in>set (contents db ''_raw''). \<exists>ch. i \<noteq> None \<and> sql_cell rcols r ''id'' = i \<and>
         sql_changed P (sql_cell rcols r ''date'') = Inr ch \<and> to_timestamp P ch = Inr t)"
  by (simp add: raw_times_def raw_time_of_iff)

lemma vert_time_of_iff:
  "(i, t) \<in> set (vert_time_of P vcols v) \<longleftrightarrow>
     (sql_cell vcols v ''id'' = i \<and> to_timestamp P (sql_cell vcols v ''vert_date'') = Inr t)"
  unfolding vert_time_of_def
  by (cases "to_timestamp P (sql_cell vcols v ''vert_date'')") auto

lemma in_vert_times:
  "(i, t) \<in> set (vert_times P db vcols) \<longleftrightarrow>
     (\<exists>v\<in>set (contents db ''_vert''). sql_cell vcols v ''id'' = i \<and> to_timestamp P (sql_cell vcols v ''vert_date'') = Inr t)"
  by (simp add: vert_times_def vert_time_of_iff)

lemma join_row_iff:
  "Inr (i, ch, vd) \<in> set (join_row P vcols rcols raws v) \<longleftrightarrow>
     (i = sql_cell vcols v ''id'' \<and> vd = sql_cell vcols v ''vert_date'' \<and>
        ((ch = None \<and> (\<forall>r\<in>set raws. i = None \<or> sql_cell rcols r ''id'' \<noteq> i)) \<or>
         (\<exists>r\<in>set raws. i \<noteq> None \<and> sql_cell rcols r ''id'' = i \<and>
             sql_changed P (sql_cell rcols r ''date'') = Inr ch)))"
proof -
  let ?m = "filter (\<lambda>r. sql_cell vcols v ''id'' \<noteq> None \<and> sql_cell rcols r ''id'' = sql_cell vcols v ''id'') raws"
  let ?h = "\<lambda>r. case sql_changed P (sql_cell rcols r ''date'') of
                   Inl e \<Rightarrow> Inl e
                 | Inr ch \<Rightarrow> Inr (sql_cell vcols v ''id'', ch, sql_cell vcols v ''vert_date'')"
  have e: "?m = [] \<longleftrightarrow> (\<forall>r\<in>set raws. sql_cell vcols v ''id'' = None \<or> sql_cell rcols r ''id'' \<noteq> sql_cell vcols v ''id'')"
    by (auto simp: filter_empty_conv)
  have h: "?h r = Inr (i, ch, vd) \<longleftrightarrow>
      (i = sql_cell vcols v ''id'' \<and> vd = sql_cell vcols v ''vert_date'' \<and> sql_changed P (sql_cell rcols r ''date'') = Inr ch)" for r
    by (cases "sql_changed P (sql_cell rcols r ''date'')") auto
  have m: "Inr (i, ch, vd) \<in> set (map ?h ?m) \<longleftrightarrow>
       (i = sql_cell vcols v ''id'' \<and> vd = sql_cell vcols v ''vert_date'' \<and>
         (\<exists>r\<in>set raws. i \<noteq> None \<and> sql_cell rcols r ''id'' = i \<and>
             sql_changed P (sql_cell rcols r ''date'') = Inr ch))"
  proof -
    have "Inr (i, ch, vd) \<in> set (map ?h ?m) \<longleftrightarrow> (\<exists>r\<in>set ?m. ?h r = Inr (i, ch, vd))"
      by (simp add: image_iff eq_commute)
    also have "\<dots> \<longleftrightarrow> (\<exists>r\<in>set ?m. i = sql_cell vcols v ''id'' \<and> vd = sql_cell vcols v ''vert_date'' \<and>
          sql_changed P (sql_cell rcols r ''date'') = Inr ch)"
      by (simp only: h)
    also have "\<dots> \<longleftrightarrow> (i = sql_cell vcols v ''id'' \<and> vd = sql_cell vcols v ''vert_date'' \<and>
         (\<exists>r\<in>set raws. i \<noteq> None \<and> sql_cell rcols r ''id'' = i \<and>
             sql_changed P (sql_cell rcols r ''date'') = Inr ch))"
      by auto
    finally show ?thesis .
  qed
  show ?thesis
  proof (cases "?m = []")
    case True
    then have "join_row P vcols rcols raws v = [Inr (sql_cell vcols v ''id'', None, sql_cell vcols v ''vert_date'')]"
      by (simp add: join_row_def Let_def)
    with True e show ?thesis by auto
  next
    case False
    then have "join_row P vcols rcols raws v = map ?h ?m"
      by (simp add: join_row_def Let_def)
    with False e m show ?thesis by auto
  qed
qed

lemma join_row_nonempty:
  "\<exists>x\<in>set (join_row P vcols rcols raws v).
     \<forall>t. x = Inr t \<longrightarrow> fst t = sql_cell vcols v ''id'' \<and> snd (snd t) = sql_cell vcols v ''vert_date''"
proof -
  let ?m = "filter (\<lambda>r. sql_cell vcols v ''id'' \<noteq> None \<and> sql_cell rcols r ''id'' = sql_cell vcols v ''id'') raws"
  show ?thesis
  proof (cases ?m)
    case Nil
    then show ?thesis by (simp add: join_row_def Let_def)
  next
    case (Cons r rs)
    then show ?thesis
      by (cases "sql_changed P (sql_cell rcols r ''date'')") (simp_all add: join_row_def Let_def)
  qed
qed


lemma vert_join_raw_Inr:
  assumes j: "vert_join_raw P db = Inr joined"
    and vc: "tables db ''_vert'' = Some vcols" and rc: "tables db ''_raw'' = Some rcols"
  shows "concat (map (join_row P vcols rcols (contents db ''_raw'')) (contents db ''_vert'')) = map Inr joined"
proof -
  from j vc rc have "collect (concat (map (join_row P vcols rcols (contents db ''_raw'')) (contents db ''_vert''))) = Inr joined"
    by (simp add: vert_join_raw_def split: if_splits)
  then show ?thesis by (rule collect_Inr)
qed

lemma vert_join_raw_rows:
  assumes j: "vert_join_raw P db = Inr joined"
    and vc: "tables db ''_vert'' = Some vcols" and rc: "tables db ''_raw'' = Some rcols"
  shows "(i, ch, vd) \<in> set joined \<longleftrightarrow>
     (\<exists>v\<in>set (contents db ''_vert''). Inr (i, ch, vd) \<in> set (join_row P vcols rcols (contents db ''_raw'') v))"
proof -
  have "(i, ch, vd) \<in> set joined \<longleftrightarrow> Inr (i, ch, vd) \<in> set (map Inr joined :: (error + _) list)"
    by auto
  also have "\<dots> \<longleftrightarrow> (\<exists>v\<in>set (contents db ''_vert''). Inr (i, ch, vd) \<in> set (join_row P vcols rcols (contents db ''_raw'') v))"
    unfolding vert_join_raw_Inr[OF j vc rc, symmetric] by simp
  finally show ?thesis .
qed

lemma vert_join_raw_covers:
  assumes j: "vert_join_raw P db = Inr joined"
    and vc: "tables db ''_vert'' = Some vcols" and rc: "tables db ''_raw'' = Some rcols"
    and v: "v \<in> set (contents db ''_vert'')"
  shows "\<exists>ch. (sql_cell vcols v ''id'', ch, sql_cell vcols v ''vert_date'') \<in> set joined"
proof -
  from join_row_nonempty[of P vcols rcols "contents db ''_raw''" v] obtain x where
    x: "x \<in> set (join_row P vcols rcols (contents db ''_raw'') v)"
    "\<forall>t. x = Inr t \<longrightarrow> fst t = sql_cell vcols v ''id'' \<and> snd (snd t) = sql_cell vcols v ''vert_date''"
    by blast
  from x(1) v have "x \<in> set (concat (map (join_row P vcols rcols (contents db ''_raw'')) (contents db ''_vert'')))"
    by auto
  then have "x \<in> set (map Inr joined)"
    unfolding vert_join_raw_Inr[OF j vc rc] .
  then obtain t where t: "x = Inr t" "t \<in> set joined" by auto
  obtain i c d where tt: "t = (i, c, d)" by (cases t)
  with x(2) t show ?thesis by auto
qed

lemma zip_timestamps:
  "zip (map fst df) (zip (map f df) (map g df)) = map (\<lambda>x. (fst x, f x, g x)) df"
  by (induction df) auto

lemma to_timestamp_None: "to_timestamp P None = Inr None"
  by (simp add: to_timestamp_def)

lemma outdated_vert_joined:
  assumes o: "outdated_vert P db = Inr changed"
  shows "\<exists>joined. vert_join_raw P db = Inr joined \<and>
     (\<forall>i ch vd. (i, ch, vd) \<in> set joined \<longrightarrow> (\<exists>tc tv. to_timestamp P ch = Inr tc \<and> to_timestamp P vd = Inr tv)) \<and>
     (\<forall>i. i \<in> set changed \<longleftrightarrow>
        (\<exists>ch vd tc tv. (i, ch, vd) \<in> set joined \<and> to_timestamp P ch = Inr tc \<and> to_timestamp P vd = Inr tv \<and> ts_gt tc tv))"
proof -
  from o obtain joined dc vt where j: "vert_join_raw P db = Inr joined"
    and dc: "collect (map (\<lambda>(i, ch, vd). to_timestamp P ch) joined) = Inr dc"
    and vt: "collect (map (\<lambda>(i, ch, vd). to_timestamp P vd) joined) = Inr vt"
    and ch: "changed = map fst (filter (\<lambda>(i, ch, vd). ts_gt ch vd) (zip (map fst joined) (zip dc vt)))"
    by (auto simp: outdated_vert_def split: sum.splits)
  define f where "f = (\<lambda>x :: string option \<times> string option \<times> string option. projr (to_timestamp P (fst (snd x))))"
  define g where "g = (\<lambda>x :: string option \<times> string option \<times> string option. projr (to_timestamp P (snd (snd x))))"
  have dcf: "(\<lambda>(i, ch, vd). to_timestamp P ch) = (\<lambda>x :: string option \<times> string option \<times> string option. to_timestamp P (fst (snd x)))"
    by (auto simp: fun_eq_iff)
  have vtg: "(\<lambda>(i, ch, vd). to_timestamp P vd) = (\<lambda>x :: string option \<times> string option \<times> string option. to_timestamp P (snd (snd x)))"
    by (auto simp: fun_eq_iff)
  from collect_map_Inr[OF dc[unfolded dcf]] have dc': "dc = map f joined"
    and fok: "\<forall>x\<in>set joined. to_timestamp P (fst (snd x)) = Inr (f x)"
    by (auto simp: f_def)
  from collect_map_Inr[OF vt[unfolded vtg]] have vt': "vt = map g joined"
    and gok: "\<forall>x\<in>set joined. to_timestamp P (snd (snd x)) = Inr (g x)"
    by (auto simp: g_def)
  have z: "zip (map fst joined) (zip dc vt) = map (\<lambda>x. (fst x, f x, g x)) joined"
    unfolding dc' vt' by (rule zip_timestamps)
  have fm: "map fst (filter (\<lambda>(i, c, d). ts_gt c d) (map (\<lambda>x. (fst x, f x, g x)) xs))
      = map fst (filter (\<lambda>x. ts_gt (f x) (g x)) xs)" for xs :: "(string option \<times> string option \<times> string option) list"
    by (induction xs) simp_all
  have chs: "set changed = {fst x | x. x \<in> set joined \<and> ts_gt (f x) (g x)}"
    unfolding ch z fm by (simp add: image_def Bex_def conj_commute)
  have ok: "\<exists>tc tv. to_timestamp P c = Inr tc \<and> to_timestamp P d = Inr tv" if "(i, c, d) \<in> set joined" for i c d
    using fok gok that by fastforce
  have mem: "i \<in> set changed \<longleftrightarrow>
        (\<exists>c d tc tv. (i, c, d) \<in> set joined \<and> to_timestamp P c = Inr tc \<and> to_timestamp P d = Inr tv \<and> ts_gt tc tv)" for i
  proof
    assume "i \<in> set changed"
    then obtain x where x: "x \<in> set joined" "fst x = i" "ts_gt (f x) (g x)"
      unfolding chs by auto
    obtain c d where xe: "x = (i, c, d)" using x(2) by (cases x) auto
    from fok gok x(1) xe have "to_timestamp P c = Inr (f x)" "to_timestamp P d = Inr (g x)"
      by auto
    moreover from x(1) xe have "(i, c, d) \<in> set joined" by simp
    ultimately have "(i, c, d) \<in> set joined \<and> to_timestamp P c = Inr (f x) \<and> to_timestamp P d = Inr (g x) \<and> ts_gt (f x) (g x)"
      using x(3) by simp
    then show "\<exists>c d tc tv. (i, c, d) \<in> set joined \<and> to_timestamp P c = Inr tc \<and> to_timestamp P d = Inr tv \<and> ts_gt tc tv"
      by (intro exI)
  next
    assume "\<exists>c d tc tv. (i, c, d) \<in> set joined \<and> to_timestamp P c = Inr tc \<and> to_timestamp P d = Inr tv \<and> ts_gt tc tv"
    then obtain c d tc tv where a: "(i, c, d) \<in> set joined" "to_timestamp P c = Inr tc" "to_timestamp P d = Inr tv" "ts_gt tc tv"
      by blast
    then have "ts_gt (f (i, c, d)) (g (i, c, d))"
      by (simp add: f_def g_def)
    with a(1) show "i \<in> set changed"
      unfolding chs by force
  qed
  from j ok mem show ?thesis by blast
qed


lemma outdated_vert_changed:
  assumes o: "outdated_vert P db = Inr changed"
    and vc: "tables db ''_vert'' = Some vcols" and rc: "tables db ''_raw'' = Some rcols"
  shows "i \<in> set changed \<longleftrightarrow>
      (\<exists>r a. (i, r) \<in> set (raw_times P db rcols) \<and> (i, a) \<in> set (vert_times P db vcols) \<and> ts_gt r a)"
proof -
  from outdated_vert_joined[OF o] obtain joined where j: "vert_join_raw P db = Inr joined"
    and mem: "\<And>i. i \<in> set changed \<longleftrightarrow>
        (\<exists>ch vd tc tv. (i, ch, vd) \<in> set joined \<and> to_timestamp P ch = Inr tc \<and> to_timestamp P vd = Inr tv \<and> ts_gt tc tv)"
    by blast
  note rows = vert_join_raw_rows[OF j vc rc]
  show ?thesis
  proof
    assume "i \<in> set changed"
    then obtain ch vd tc tv where a: "(i, ch, vd) \<in> set joined" "to_timestamp P ch = Inr tc"
      "to_timestamp P vd = Inr tv" "ts_gt tc tv"
      unfolding mem by blast
    from a(1) obtain v where v: "v \<in> set (contents db ''_vert'')"
      "Inr (i, ch, vd) \<in> set (join_row P vcols rcols (contents db ''_raw'') v)"
      unfolding rows by blast
    from v(2) have iv: "i = sql_cell vcols v ''id''" and vv: "vd = sql_cell vcols v ''vert_date''"
      and alt: "ch = None \<or> (\<exists>r\<in>set (contents db ''_raw''). i \<noteq> None \<and> sql_cell rcols r ''id'' = i \<and>
             sql_changed P (sql_cell rcols r ''date'') = Inr ch)"
      unfolding join_row_iff by blast+
    have "ch \<noteq> None"
    proof
      assume "ch = None"
      with a(2) have "tc = None" by (simp add: to_timestamp_None)
      with a(4) show False by simp
    qed
    with alt obtain r where r: "r \<in> set (contents db ''_raw'')" "i \<noteq> None" "sql_cell rcols r ''id'' = i"
      "sql_changed P (sql_cell rcols r ''date'') = Inr ch"
      by blast
    from r a(2) have "(i, tc) \<in> set (raw_times P db rcols)"
      unfolding in_raw_times by blast
    moreover from v(1) iv vv a(3) have "(i, tv) \<in> set (vert_times P db vcols)"
      unfolding in_vert_times by blast
    ultimately show "\<exists>r a. (i, r) \<in> set (raw_times P db rcols) \<and> (i, a) \<in> set (vert_times P db vcols) \<and> ts_gt r a"
      using a(4) by blast
  next
    assume "\<exists>r a. (i, r) \<in> set (raw_times P db rcols) \<and> (i, a) \<in> set (vert_times P db vcols) \<and> ts_gt r a"
    then obtain tc tv where R: "(i, tc) \<in> set (raw_times P db rcols)"
      and A: "(i, tv) \<in> set (vert_times P db vcols)" and gt: "ts_gt tc tv"
      by blast
    from R obtain r ch where r: "r \<in> set (contents db ''_raw'')" "i \<noteq> None" "sql_cell rcols r ''id'' = i"
      "sql_changed P (sql_cell rcols r ''date'') = Inr ch" "to_timestamp P ch = Inr tc"
      unfolding in_raw_times by blast
    from A obtain v where v: "v \<in> set (contents db ''_vert'')" "sql_cell vcols v ''id'' = i"
      "to_timestamp P (sql_cell vcols v ''vert_date'') = Inr tv"
      unfolding in_vert_times by blast
    have "Inr (i, ch, sql_cell vcols v ''vert_date'') \<in> set (join_row P vcols rcols (contents db ''_raw'') v)"
    proof -
      have "\<exists>r\<in>set (contents db ''_raw''). i \<noteq> None \<and> sql_cell rcols r ''id'' = i \<and>
             sql_changed P (sql_cell rcols r ''date'') = Inr ch"
        using r(1-4) by (intro bexI[of _ r]) simp_all
      then show ?thesis
        unfolding join_row_iff using v(2) by simp
    qed
    with v(1) have "(i, ch, sql_cell vcols v ''vert_date'') \<in> set joined"
      unfolding rows by blast
    with r(5) v(3) gt show "i \<in> set changed"
      unfolding mem by blast
  qed
qed

lemma outdated_vert_annotated:
  assumes o: "outdated_vert P db = Inr changed"
    and vc: "tables db ''_vert'' = Some vcols" and rc: "tables db ''_raw'' = Some rcols"
  shows "fst ` set (vert_times P db vcols) = (\<lambda>v. sql_cell vcols v ''id'') ` set (contents db ''_vert'')"
proof -
  from outdated_vert_joined[OF o] obtain joined where j: "vert_join_raw P db = Inr joined"
    and ok: "\<And>i ch vd. (i, ch, vd) \<in> set joined \<Longrightarrow> \<exists>tc tv. to_timestamp P ch = Inr tc \<and> to_timestamp P vd = Inr tv"
    by blast
  show ?thesis
  proof (intro set_eqI iffI)
    fix i assume "i \<in> fst ` set (vert_times P db vcols)"
    then obtain t where "(i, t) \<in> set (vert_times P db vcols)" by force
    then show "i \<in> (\<lambda>v. sql_cell vcols v ''id'') ` set (contents db ''_vert'')"
      unfolding in_vert_times by blast
  next
    fix i assume "i \<in> (\<lambda>v. sql_cell vcols v ''id'') ` set (contents db ''_vert'')"
    then obtain v where v: "v \<in> set (contents db ''_vert'')" "i = sql_cell vcols v ''id''" by blast
    from vert_join_raw_covers[OF j vc rc v(1)] obtain ch where
      "(sql_cell vcols v ''id'', ch, sql_cell vcols v ''vert_date'') \<in> set joined" by blast
    from ok[OF this] obtain tv where "to_timestamp P (sql_cell vcols v ''vert_date'') = Inr tv" by blast
    with v have "(i, tv) \<in> set (vert_times P db vcols)"
      unfolding in_vert_times by blast
    then show "i \<in> fst ` set (vert_times P db vcols)" by force
  qed
qed

lemma select_vert_ids_Inr:
  "select_vert_ids db = Inr ids \<Longrightarrow> tables db ''_vert'' = Some vcols \<Longrightarrow>
     ids = map (\<lambda>v. sql_cell vcols v ''id'') (contents db ''_vert'')"
  by (auto simp: select_vert_ids_def split: if_splits)

lemma ex_vert_db_raw: "tables ex_vert_db ''_raw'' = Some [''api_params_hash'', ''id'', ''date'', ''body_html'']"
  by (simp add: ex_vert_db_def)

lemma ex_vert_db_vert: "tables ex_vert_db ''_vert'' = Some [''id'', ''vert_date'', ''vert'']"
  by (simp add: ex_vert_db_def)

lemma ex_vert_db_outdated: "outdated_vert ex_vp ex_vert_db = Inr [Some ''1'']"
  by (simp add: outdated_vert_def vert_join_raw_def join_row_def ex_vert_db_def ex_vp_def
      sql_cell_def cell_def sql_changed_def to_timestamp_def Let_def)

lemma ex_vert_db_ids: "select_vert_ids ex_vert_db = Inr [Some ''1'', Some ''2'', Some ''3'']"
  by (simp add: select_vert_ids_def ex_vert_db_def sql_cell_def cell_def)

lemma ex_vert_db_skip:
  "skip_up_to_date ex_vp ex_vert_db (contents ex_vert_db ''_raw'') =
     Inr [[Some ''h'', Some ''1'', Some ''abc'', Some ''text''],
          [Some ''h'', Some ''4'', Some ''abcd'', Some ''text'']]"
  unfolding skip_up_to_date_def ex_vert_db_outdated ex_vert_db_ids
  by (simp add: ex_vert_db_def)

text \<open>
  C2. The rows that \<open>batch\<close> keeps (lines 75 to 78, with \<open>outdated_vert\<close>, lines 125 to 141)
  are exactly the rows of the batch whose id, the second value of a raw row, is due in the
  words of the specification: the id has no vertical document, or the changed timestamp of
  its raw record is strictly greater than the creation timestamp of its vertical document.
  So a row whose id has no document is kept, and a row whose id has a document is dropped
  when no raw timestamp of it is greater than a document timestamp of it, equal timestamps
  included. The result is a function of the database and the batch, and the database is
  only read.
\<close>

theorem stale_set:
  assumes run: "skip_up_to_date P db b = Inr b'"
    and vc: "tables db ''_vert'' = Some vcols" and rc: "tables db ''_raw'' = Some rcols"
  shows "b' = filter (\<lambda>x. due_spec (set (raw_times P db rcols)) (set (vert_times P db vcols)) (x ! 1)) b
    \<and> (\<forall>x\<in>set b. x ! 1 \<notin> fst ` set (vert_times P db vcols) \<longrightarrow> x \<in> set b')
    \<and> (\<forall>x\<in>set b. x ! 1 \<in> fst ` set (vert_times P db vcols) \<and>
          (\<forall>r a. (x ! 1, r) \<in> set (raw_times P db rcols) \<and> (x ! 1, a) \<in> set (vert_times P db vcols) \<longrightarrow> \<not> ts_gt r a)
          \<longrightarrow> x \<notin> set b')"
proof -
  from run obtain changed ids where o: "outdated_vert P db = Inr changed"
    and s: "select_vert_ids db = Inr ids"
    and b': "b' = filter (\<lambda>x. x ! 1 \<notin> set (filter (\<lambda>x. x \<notin> set changed) ids)) b"
    by (auto simp: skip_up_to_date_def Let_def split: sum.splits if_splits)
  note ids = select_vert_ids_Inr[OF s vc]
  have "i \<notin> set (filter (\<lambda>x. x \<notin> set changed) ids) \<longleftrightarrow>
      due_spec (set (raw_times P db rcols)) (set (vert_times P db vcols)) i" for i
    unfolding due_spec_iff outdated_vert_annotated[OF o vc rc] outdated_vert_changed[OF o vc rc, symmetric]
    by (auto simp: ids)
  then have eq: "b' = filter (\<lambda>x. due_spec (set (raw_times P db rcols)) (set (vert_times P db vcols)) (x ! 1)) b"
    unfolding b' by simp
  have absent: "\<forall>x\<in>set b. x ! 1 \<notin> fst ` set (vert_times P db vcols) \<longrightarrow> x \<in> set b'"
    unfolding eq by (simp add: due_spec_iff)
  have fresh: "\<forall>x\<in>set b. x ! 1 \<in> fst ` set (vert_times P db vcols) \<and>
          (\<forall>r a. (x ! 1, r) \<in> set (raw_times P db rcols) \<and> (x ! 1, a) \<in> set (vert_times P db vcols) \<longrightarrow> \<not> ts_gt r a)
          \<longrightarrow> x \<notin> set b'"
    unfolding eq by (simp add: due_spec_iff)
  from eq absent fresh show ?thesis by blast
qed

theorem stale_set_witness:
  "filter (\<lambda>x. due_spec (set (raw_times ex_vp ex_vert_db [''api_params_hash'', ''id'', ''date'', ''body_html'']))
                         (set (vert_times ex_vp ex_vert_db [''id'', ''vert_date'', ''vert''])) (x ! 1))
      (contents ex_vert_db ''_raw'') =
     [[Some ''h'', Some ''1'', Some ''abc'', Some ''text''],
      [Some ''h'', Some ''4'', Some ''abcd'', Some ''text'']]"
  using stale_set[OF ex_vert_db_skip ex_vert_db_vert ex_vert_db_raw] by simp

end
